theory Spec2Isabelle
  imports
    Complex_Main
    "HOL-Library.Signed_Division"
    "HOL-Library.Char_ord"
    "HOL-Library.List_Lexorder"
begin

section \<open>The slide preview pipeline of \<^verbatim>\<open>pptx_build/preview.mjs\<close>\<close>

text \<open>
  The script captures every slide of a fixed list with a headless browser and tiles
  the captures into one contact sheet. JavaScript numbers are modelled as \<open>int\<close> (every
  number of the script is a small integer, far below \<open>2 ^ 53\<close>); the quotient of
  \<^verbatim>\<open>Math.ceil(images.length / COLS)\<close> and \<^verbatim>\<open>Math.floor(idx / COLS)\<close> is the real
  quotient, which a double holds exactly for the divisor 4. The calls into the file
  system, Playwright and sharp are events of a trace; whether such a call throws, and
  what a decoded image holds, is read from an environment that sees the whole history.
\<close>

subsection \<open>Module constants (lines 10-28)\<close>

definition WIDTH :: int where "WIDTH = 960"
definition HEIGHT :: int where "HEIGHT = 540"
definition COLS :: int where "COLS = 4"
definition GAP :: int where "GAP = 18"
definition LABEL_H :: int where "LABEL_H = 30"

text \<open>
  \<^verbatim>\<open>path.join(a, b)\<close> for the arguments the script passes: \<open>a\<close> is a normalised
  absolute directory (it ends in a slash only when it is the root) and \<open>b\<close> is a plain
  file name.
\<close>

definition path_join :: "string \<Rightarrow> string \<Rightarrow> string" where
  "path_join a b =
     (if a = [] then b
      else if last a = CHR ''/'' then a @ b
      else a @ ''/'' @ b)"

text \<open>The directory of the script, \<^verbatim>\<open>__dirname\<close>, is the parameter \<open>dir\<close>.\<close>

definition slidesDir :: "string \<Rightarrow> string" where
  "slidesDir dir = path_join dir ''slides''"

definition outDir :: "string \<Rightarrow> string" where
  "outDir dir = path_join dir ''preview''"

definition outGrid :: "string \<Rightarrow> string" where
  "outGrid dir = path_join dir ''preview-grid.png''"

definition slideFiles :: "string \<Rightarrow> string list" where
  "slideFiles dir =
     map (\<lambda>f. path_join (slidesDir dir) f)
       [''slide-01-title.html'',
        ''slide-02-one-liner.html'',
        ''slide-03-what-can-do.html'',
        ''slide-04-constraints.html'',
        ''slide-05-specialize-compose.html'',
        ''slide-06-prompt-vs-skill.html'',
        ''slide-07-use-cases.html'']"

subsection \<open>Numbers as text: \<^verbatim>\<open>String(n)\<close> and \<^verbatim>\<open>padStart\<close>\<close>

definition digit_char :: "nat \<Rightarrow> char" where
  "digit_char d = char_of (48 + d)"

fun digits :: "nat \<Rightarrow> string" where
  "digits n = (if n < 10 then [digit_char n] else digits (n div 10) @ [digit_char (n mod 10)])"

declare digits.simps [simp del]

text \<open>\<^verbatim>\<open>String(n)\<close> of an integral number: decimal, with a minus sign below zero.\<close>

definition String_num :: "int \<Rightarrow> string" where
  "String_num n = (if n < 0 then ''-'' @ digits (nat (- n)) else digits (nat n))"

text \<open>
  \<^verbatim>\<open>s.padStart(target, pad)\<close>: the string itself when it is long enough (or the pad
  is empty), else the pad repeated and cut to the missing length, then the string.
\<close>

definition padStart :: "nat \<Rightarrow> string \<Rightarrow> string \<Rightarrow> string" where
  "padStart target pad s =
     (if target \<le> length s \<or> pad = [] then s
      else take (target - length s) (concat (replicate (target - length s) pad)) @ s)"

subsection \<open>The outside world: events, thrown errors, the environment\<close>

datatype error = Error string

type_synonym buffer = string

record canvas =
  width :: int
  height :: int
  channels :: int
  background :: "int \<times> int \<times> int \<times> int"

record overlay =
  input :: buffer
  left :: int
  top_px :: int

datatype event =
    FsMkdir string bool
  | ChromiumLaunch
  | BrowserNewPage int int
  | PageGoto string
  | PageWaitForTimeout int
  | PageScreenshot string
  | BrowserClose
  | SharpToBuffer string
  | SharpToFile string canvas "overlay list"
  | ConsoleLog string
  | ConsoleError error

record env =
  throws :: "event list \<Rightarrow> event \<Rightarrow> error option"
  pngData :: "event list \<Rightarrow> string \<Rightarrow> buffer"

type_synonym 'a io = "event list \<Rightarrow> (error + 'a) \<times> event list"

text \<open>An awaited external call: it is recorded, and it throws when the environment says so.\<close>

definition call :: "env \<Rightarrow> event \<Rightarrow> unit io" where
  "call e ev tr =
     (case throws e tr ev of
        Some err \<Rightarrow> (Inl err, tr @ [ev])
      | None \<Rightarrow> (Inr (), tr @ [ev]))"

text \<open>\<^verbatim>\<open>await sharp(file).png().toBuffer()\<close>\<close>

definition toBuffer :: "env \<Rightarrow> string \<Rightarrow> buffer io" where
  "toBuffer e file tr =
     (case throws e tr (SharpToBuffer file) of
        Some err \<Rightarrow> (Inl err, tr @ [SharpToBuffer file])
      | None \<Rightarrow> (Inr (pngData e tr file), tr @ [SharpToBuffer file]))"

subsection \<open>\<^verbatim>\<open>ensureDir\<close> and \<^verbatim>\<open>screenshotSlides\<close> (lines 30-55)\<close>

definition ensureDir :: "env \<Rightarrow> string \<Rightarrow> unit io" where
  "ensureDir e d tr = call e (FsMkdir d True) tr"

definition outFile :: "string \<Rightarrow> nat \<Rightarrow> string" where
  "outFile dir i =
     path_join (outDir dir) (''slide-'' @ padStart 2 ''0'' (String_num (int i + 1)) @ ''.png'')"

text \<open>The body of the loop at index \<open>i\<close> (lines 42-47); it yields the capture's path.\<close>

definition captureSlide :: "env \<Rightarrow> string \<Rightarrow> string list \<Rightarrow> nat \<Rightarrow> string io" where
  "captureSlide e dir files i tr =
     (let htmlFile = files ! i;
          url = ''file://'' @ htmlFile
      in case call e (PageGoto url) tr of
           (Inl err, tr1) \<Rightarrow> (Inl err, tr1)
         | (Inr _, tr1) \<Rightarrow>
             (case call e (PageWaitForTimeout 50) tr1 of
                (Inl err, tr2) \<Rightarrow> (Inl err, tr2)
              | (Inr _, tr2) \<Rightarrow>
                  (case call e (PageScreenshot (outFile dir i)) tr2 of
                     (Inl err, tr3) \<Rightarrow> (Inl err, tr3)
                   | (Inr _, tr3) \<Rightarrow> (Inr (outFile dir i), tr3))))"

function captureLoop ::
  "env \<Rightarrow> string \<Rightarrow> string list \<Rightarrow> nat \<Rightarrow> string list \<Rightarrow> (string list) io" where
  "captureLoop e dir files i outputs tr =
     (if i < length files then
        (case captureSlide e dir files i tr of
           (Inl err, tr1) \<Rightarrow> (Inl err, tr1)
         | (Inr out, tr1) \<Rightarrow> captureLoop e dir files (i + 1) (outputs @ [out]) tr1)
      else (Inr outputs, tr))"
  by pat_completeness auto
termination
  by (relation "measure (\<lambda>(e, dir, files, i, outputs, tr). length files - i)") auto

declare captureLoop.simps [simp del]

text \<open>
  The \<^verbatim>\<open>try\<close> block runs after the launch; the \<^verbatim>\<open>finally\<close> block closes the browser
  whatever the block did, and an error thrown by the close itself replaces the block's
  completion.
\<close>

definition screenshotSlides :: "env \<Rightarrow> string \<Rightarrow> string list \<Rightarrow> (string list) io" where
  "screenshotSlides e dir files tr =
     (case ensureDir e (outDir dir) tr of
        (Inl err, tr1) \<Rightarrow> (Inl err, tr1)
      | (Inr _, tr1) \<Rightarrow>
          (case call e ChromiumLaunch tr1 of
             (Inl err, tr2) \<Rightarrow> (Inl err, tr2)
           | (Inr _, tr2) \<Rightarrow>
               (let (r, tr3) =
                      (case call e (BrowserNewPage WIDTH HEIGHT) tr2 of
                         (Inl err, t) \<Rightarrow> (Inl err, t)
                       | (Inr _, t) \<Rightarrow> captureLoop e dir files 0 [] t)
                in case call e BrowserClose tr3 of
                     (Inl err, tr4) \<Rightarrow> (Inl err, tr4)
                   | (Inr _, tr4) \<Rightarrow> (r, tr4))))"

subsection \<open>\<^verbatim>\<open>makeGrid\<close> (lines 57-92)\<close>

definition gridRows :: "nat \<Rightarrow> int" where
  "gridRows n = \<lceil>real n / real_of_int COLS\<rceil>"

definition gridW :: int where
  "gridW = COLS * WIDTH + (COLS + 1) * GAP"

definition gridH :: "nat \<Rightarrow> int" where
  "gridH n = gridRows n * (HEIGHT + LABEL_H) + (gridRows n + 1) * GAP"

text \<open>
  \<^verbatim>\<open>sharp({ create: ... })\<close> only records the canvas to create; it makes no external
  call, and its check of the options passes, since both dimensions are positive integers
  (lemma \<open>gridH_pos\<close> below).
\<close>

definition base :: "nat \<Rightarrow> canvas" where
  "base n = \<lparr>width = gridW, height = gridH n, channels = 4, background = (20, 23, 32, 1)\<rparr>"

definition cellRow :: "nat \<Rightarrow> int" where
  "cellRow idx = \<lfloor>real idx / real_of_int COLS\<rfloor>"

definition cellCol :: "nat \<Rightarrow> int" where
  "cellCol idx = int idx smod COLS"

definition cellX :: "nat \<Rightarrow> int" where
  "cellX idx = GAP + cellCol idx * (WIDTH + GAP)"

definition cellY :: "nat \<Rightarrow> int" where
  "cellY idx = GAP + cellRow idx * (HEIGHT + LABEL_H + GAP)"

definition labelSvg :: "nat \<Rightarrow> buffer" where
  \<open>labelSvg idx =
     ''<svg width="'' @ String_num WIDTH @ ''" height="'' @ String_num LABEL_H
       @ ''" xmlns="http://www.w3.org/2000/svg">'' @ [CHR 0x0A]
     @ ''        <rect x="0" y="0" width="'' @ String_num WIDTH @ ''" height="''
       @ String_num LABEL_H @ ''" fill="#23283A"/>'' @ [CHR 0x0A]
     @ ''        <text x="12" y="20" font-family="Arial, Helvetica, sans-serif" font-size="16" fill="#E7ECFF">Slide ''
       @ String_num (int idx + 1) @ ''</text>'' @ [CHR 0x0A]
     @ ''      </svg>''\<close>

function compositeLoop ::
  "env \<Rightarrow> string list \<Rightarrow> nat \<Rightarrow> overlay list \<Rightarrow> (overlay list) io" where
  "compositeLoop e images idx composites tr =
     (if idx < length images then
        (case toBuffer e (images ! idx) tr of
           (Inl err, tr1) \<Rightarrow> (Inl err, tr1)
         | (Inr buf, tr1) \<Rightarrow>
             compositeLoop e images (idx + 1)
               (composites
                  @ [\<lparr>input = buf, left = cellX idx, top_px = cellY idx\<rparr>]
                  @ [\<lparr>input = labelSvg idx, left = cellX idx, top_px = cellY idx + HEIGHT\<rparr>])
               tr1)
      else (Inr composites, tr))"
  by pat_completeness auto
termination
  by (relation "measure (\<lambda>(e, images, idx, composites, tr). length images - idx)") auto

declare compositeLoop.simps [simp del]

definition makeGrid :: "env \<Rightarrow> string \<Rightarrow> string list \<Rightarrow> unit io" where
  "makeGrid e dir images tr =
     (case compositeLoop e images 0 [] tr of
        (Inl err, tr1) \<Rightarrow> (Inl err, tr1)
      | (Inr composites, tr1) \<Rightarrow>
          (case call e (SharpToFile (outGrid dir) (base (length images)) composites) tr1 of
             (Inl err, tr2) \<Rightarrow> (Inl err, tr2)
           | (Inr _, tr2) \<Rightarrow> (Inr (), tr2 @ [ConsoleLog (outGrid dir)])))"

subsection \<open>\<^verbatim>\<open>main\<close> and the script's last statement (lines 94-103)\<close>

definition main :: "env \<Rightarrow> string \<Rightarrow> string list \<Rightarrow> unit io" where
  "main e dir files tr =
     (case screenshotSlides e dir files tr of
        (Inl err, tr1) \<Rightarrow> (Inl err, tr1)
      | (Inr images, tr1) \<Rightarrow> makeGrid e dir images tr1)"

record process =
  trace :: "event list"
  exitCode :: "int option"

text \<open>
  \<^verbatim>\<open>main().catch(...)\<close> with the slide list as a parameter; the process starts with an
  empty trace and \<^verbatim>\<open>process.exitCode\<close> unset.
\<close>

definition run :: "env \<Rightarrow> string \<Rightarrow> string list \<Rightarrow> process" where
  "run e dir files =
     (case main e dir files [] of
        (Inl err, tr) \<Rightarrow> \<lparr>trace = tr @ [ConsoleError err], exitCode = Some 1\<rparr>
      | (Inr _, tr) \<Rightarrow> \<lparr>trace = tr, exitCode = None\<rparr>)"

text \<open>The script as it stands: the list is the module's \<^verbatim>\<open>slideFiles\<close>.\<close>

definition script :: "env \<Rightarrow> string \<Rightarrow> process" where
  "script e dir = run e dir (slideFiles dir)"

text \<open>Node ends the process with \<^verbatim>\<open>process.exitCode\<close>, or 0 when it was never set.\<close>

definition exitStatus :: "process \<Rightarrow> int" where
  "exitStatus p = (case exitCode p of None \<Rightarrow> 0 | Some c \<Rightarrow> c)"

subsection \<open>Event sequences and environments used to state and exercise the theorems\<close>

text \<open>The three calls the loop body of \<^verbatim>\<open>screenshotSlides\<close> makes for slide \<open>k\<close> (0-based).\<close>

definition slideEvents :: "string \<Rightarrow> string list \<Rightarrow> nat \<Rightarrow> event list" where
  "slideEvents dir files k =
     [PageGoto (''file://'' @ files ! k), PageWaitForTimeout 50, PageScreenshot (outFile dir k)]"

text \<open>The calls \<^verbatim>\<open>screenshotSlides\<close> makes before its loop.\<close>

definition setupEvents :: "string \<Rightarrow> event list" where
  "setupEvents dir = [FsMkdir (outDir dir) True, ChromiumLaunch, BrowserNewPage WIDTH HEIGHT]"

text \<open>
  The trace of a run of \<^verbatim>\<open>screenshotSlides\<close> that started at \<open>tr\<close>, once its
  first \<open>i\<close> slides are captured.
\<close>

definition captureTrace :: "string \<Rightarrow> string list \<Rightarrow> event list \<Rightarrow> nat \<Rightarrow> event list" where
  "captureTrace dir files tr i =
     tr @ setupEvents dir @ concat (map (slideEvents dir files) [0..<i])"

text \<open>
  The two overlays \<^verbatim>\<open>makeGrid\<close> pushes for the image at index \<open>idx\<close> once its buffer is
  decoded, the trace after the first \<open>k\<close> decodes of a run that started at \<open>tr\<close>, and
  the whole list of overlays of a run in which every decode succeeds.
\<close>

definition cellOverlays :: "buffer \<Rightarrow> nat \<Rightarrow> overlay list" where
  "cellOverlays buf idx =
     [\<lparr>input = buf, left = cellX idx, top_px = cellY idx\<rparr>,
      \<lparr>input = labelSvg idx, left = cellX idx, top_px = cellY idx + HEIGHT\<rparr>]"

definition decodeTrace :: "event list \<Rightarrow> string list \<Rightarrow> nat \<Rightarrow> event list" where
  "decodeTrace tr images k = tr @ map SharpToBuffer (take k images)"

definition gridOverlays :: "env \<Rightarrow> string list \<Rightarrow> event list \<Rightarrow> overlay list" where
  "gridOverlays e images tr =
     concat (map (\<lambda>k. cellOverlays (pngData e (decodeTrace tr images k) (images ! k)) k)
               [0..<length images])"

text \<open>An environment where no call throws, and one where exactly the call \<open>bad\<close> throws.\<close>

definition quietEnv :: env where
  "quietEnv = \<lparr>throws = (\<lambda>tr ev. None), pngData = (\<lambda>tr file. ''PNG:'' @ file)\<rparr>"

definition failingAt :: "event \<Rightarrow> error \<Rightarrow> env" where
  "failingAt bad err =
     \<lparr>throws = (\<lambda>tr ev. if ev = bad then Some err else None),
      pngData = (\<lambda>tr file. ''PNG:'' @ file)\<rparr>"

section \<open>External calls\<close>

lemma call_Inl:
  "call e ev tr = (Inl err, tr') \<longleftrightarrow> throws e tr ev = Some err \<and> tr' = tr @ [ev]"
  by (auto simp add: call_def split: option.splits)

lemma call_Inr:
  "call e ev tr = (Inr u, tr') \<longleftrightarrow> throws e tr ev = None \<and> tr' = tr @ [ev]"
  by (auto simp add: call_def split: option.splits)

section \<open>The capturer\<close>

lemma outDir_join: "path_join (outDir dir) name = outDir dir @ ''/'' @ name"
  by (simp add: path_join_def outDir_def)

lemma outFile_eq:
  "outFile dir i =
     outDir dir @ ''/slide-'' @ padStart 2 ''0'' (String_num (int i + 1)) @ ''.png''"
  by (simp add: outFile_def outDir_join)

lemma captureSlide_Inr:
  assumes "captureSlide e dir files i tr = (Inr out, tr')"
  shows "out = outFile dir i \<and> tr' = tr @ slideEvents dir files i"
  using assms
  by (auto simp add: captureSlide_def Let_def call_Inr call_Inl slideEvents_def
      split: prod.splits sum.splits)

lemma captureSlide_ext:
  "\<exists>evs. snd (captureSlide e dir files i tr) = tr @ evs \<and> BrowserClose \<notin> set evs"
  by (auto simp add: captureSlide_def Let_def call_Inr call_Inl
      split: prod.splits sum.splits)

text \<open>A loop that returns has captured every remaining slide, in the order of the list.\<close>

lemma captureLoop_Inr:
  "captureLoop e dir files i outputs tr = (Inr res, tr') \<Longrightarrow>
     res = outputs @ map (outFile dir) [i..<length files] \<and>
     tr' = tr @ concat (map (slideEvents dir files) [i..<length files])"
proof (induction e dir files i outputs tr rule: captureLoop.induct)
  case (1 e dir files i outputs tr)
  show ?case
  proof (cases "i < length files")
    case False
    with "1.prems" show ?thesis
      by (simp add: captureLoop.simps)
  next
    case True
    obtain r tr1 where step: "captureSlide e dir files i tr = (r, tr1)"
      by (cases "captureSlide e dir files i tr")
    show ?thesis
    proof (cases r)
      case (Inl err)
      with True step "1.prems" show ?thesis
        by (simp add: captureLoop.simps)
    next
      case (Inr out)
      with True step "1.prems"
      have rec: "captureLoop e dir files (i + 1) (outputs @ [out]) tr1 = (Inr res, tr')"
        by (simp add: captureLoop.simps)
      from step Inr have one: "out = outFile dir i" "tr1 = tr @ slideEvents dir files i"
        using captureSlide_Inr by blast+
      have ih: "res = (outputs @ [out]) @ map (outFile dir) [i + 1..<length files] \<and>
                tr' = tr1 @ concat (map (slideEvents dir files) [i + 1..<length files])"
        using "1.IH" [OF True _ _ rec] step Inr by simp
      from True have upt: "[i..<length files] = i # [i + 1..<length files]"
        by (simp add: upt_conv_Cons)
      show ?thesis
        using ih one by (simp add: upt)
    qed
  qed
qed

text \<open>Whatever the loop does, it only appends to the trace, and never closes the browser.\<close>

lemma captureLoop_ext:
  "\<exists>evs. snd (captureLoop e dir files i outputs tr) = tr @ evs \<and> BrowserClose \<notin> set evs"
proof (induction e dir files i outputs tr rule: captureLoop.induct)
  case (1 e dir files i outputs tr)
  show ?case
  proof (cases "i < length files")
    case False
    then show ?thesis
      by (simp add: captureLoop.simps)
  next
    case True
    obtain r tr1 where step: "captureSlide e dir files i tr = (r, tr1)"
      by (cases "captureSlide e dir files i tr")
    from captureSlide_ext [of e dir files i tr] step
    obtain evs where evs: "tr1 = tr @ evs" "BrowserClose \<notin> set evs"
      by auto
    show ?thesis
    proof (cases r)
      case (Inl err)
      with True step evs show ?thesis
        by (simp add: captureLoop.simps)
    next
      case (Inr out)
      from "1.IH" [OF True _ _ ] step Inr
      obtain evs' where evs':
        "snd (captureLoop e dir files (i + 1) (outputs @ [out]) tr1) = tr1 @ evs'"
        "BrowserClose \<notin> set evs'"
        by auto
      have "snd (captureLoop e dir files i outputs tr) = tr @ (evs @ evs')"
        using True step Inr evs evs' by (subst captureLoop.simps) simp
      moreover have "BrowserClose \<notin> set (evs @ evs')"
        using evs evs' by simp
      ultimately show ?thesis by blast
    qed
  qed
qed

lemma screenshotSlides_Inr:
  assumes "screenshotSlides e dir files tr = (Inr outs, tr')"
  shows "outs = map (outFile dir) [0..<length files] \<and>
         tr' = tr @ setupEvents dir
                 @ concat (map (slideEvents dir files) [0..<length files]) @ [BrowserClose]"
proof -
  let ?t3 = "tr @ setupEvents dir"
  from assms obtain tr3 where
    loop: "captureLoop e dir files 0 [] ?t3 = (Inr outs, tr3)" and
    fin: "tr' = tr3 @ [BrowserClose]"
    by (auto simp add: screenshotSlides_def ensureDir_def setupEvents_def call_Inl call_Inr
        split: prod.splits sum.splits)
  from captureLoop_Inr [OF loop] fin show ?thesis
    by simp
qed

text \<open>Once the browser is launched, the trace ends with the one and only close.\<close>

lemma screenshotSlides_launched:
  assumes "throws e tr (FsMkdir (outDir dir) True) = None"
      and "throws e (tr @ [FsMkdir (outDir dir) True]) ChromiumLaunch = None"
  shows "\<exists>evs. snd (screenshotSlides e dir files tr)
                 = tr @ [FsMkdir (outDir dir) True, ChromiumLaunch] @ evs @ [BrowserClose]
               \<and> BrowserClose \<notin> set evs"
proof -
  let ?t2 = "tr @ [FsMkdir (outDir dir) True, ChromiumLaunch]"
  let ?page = "BrowserNewPage WIDTH HEIGHT"
  define body where
    "body = (case call e ?page ?t2 of
               (Inl err, t) \<Rightarrow> (Inl err, t)
             | (Inr u, t) \<Rightarrow> captureLoop e dir files 0 [] t)"
  have run: "snd (screenshotSlides e dir files tr) = snd body @ [BrowserClose]"
    using assms
    by (simp add: screenshotSlides_def ensureDir_def call_def body_def
        split: prod.splits sum.splits option.splits)
  have "\<exists>evs. snd body = ?t2 @ evs \<and> BrowserClose \<notin> set evs"
  proof (cases "throws e ?t2 ?page")
    case (Some err)
    then have "snd body = ?t2 @ [?page]"
      by (simp add: body_def call_def)
    then show ?thesis by simp
  next
    case None
    then have "body = captureLoop e dir files 0 [] (?t2 @ [?page])"
      by (simp add: body_def call_def)
    with captureLoop_ext [of e dir files 0 "[]" "?t2 @ [?page]"]
    obtain evs where "snd body = (?t2 @ [?page]) @ evs" "BrowserClose \<notin> set evs"
      by auto
    then have "snd body = ?t2 @ (?page # evs) \<and> BrowserClose \<notin> set (?page # evs)"
      by simp
    then show ?thesis by blast
  qed
  with run show ?thesis
    by auto
qed

lemma screenshotSlides_first:
  "\<exists>evs. snd (screenshotSlides e dir files tr) = tr @ FsMkdir (outDir dir) True # evs"
proof (cases "throws e tr (FsMkdir (outDir dir) True)")
  case (Some err)
  then show ?thesis
    by (simp add: screenshotSlides_def ensureDir_def call_def)
next
  case mk: None
  show ?thesis
  proof (cases "throws e (tr @ [FsMkdir (outDir dir) True]) ChromiumLaunch")
    case (Some err)
    with mk show ?thesis
      by (simp add: screenshotSlides_def ensureDir_def call_def)
  next
    case None
    from screenshotSlides_launched [OF mk None, of files] show ?thesis
      by auto
  qed
qed

text \<open>A run in which no call of the capturer throws returns.\<close>

lemma captureTrace_Suc:
  "captureTrace dir files tr (Suc i) = captureTrace dir files tr i @ slideEvents dir files i"
  by (simp add: captureTrace_def)

lemma captureSlide_ok:
  assumes "throws e tr (PageGoto (''file://'' @ files ! i)) = None"
      and "throws e (tr @ [PageGoto (''file://'' @ files ! i)]) (PageWaitForTimeout 50) = None"
      and "throws e (tr @ [PageGoto (''file://'' @ files ! i), PageWaitForTimeout 50])
             (PageScreenshot (outFile dir i)) = None"
  shows "captureSlide e dir files i tr = (Inr (outFile dir i), tr @ slideEvents dir files i)"
  using assms by (simp add: captureSlide_def call_def slideEvents_def)

lemma captureLoop_ok:
  "tr = captureTrace dir files tr0 i \<Longrightarrow> i \<le> length files \<Longrightarrow>
   \<forall>k. i \<le> k \<and> k < length files \<longrightarrow>
     throws e (captureTrace dir files tr0 k) (PageGoto (''file://'' @ files ! k)) = None \<and>
     throws e (captureTrace dir files tr0 k @ [PageGoto (''file://'' @ files ! k)])
       (PageWaitForTimeout 50) = None \<and>
     throws e (captureTrace dir files tr0 k
                 @ [PageGoto (''file://'' @ files ! k), PageWaitForTimeout 50])
       (PageScreenshot (outFile dir k)) = None \<Longrightarrow>
   \<exists>res. captureLoop e dir files i outputs tr
           = (Inr res, captureTrace dir files tr0 (length files))"
proof (induction e dir files i outputs tr rule: captureLoop.induct)
  case (1 e dir files i outputs tr)
  show ?case
  proof (cases "i < length files")
    case False
    with "1.prems"(2) have "i = length files"
      by simp
    with "1.prems"(1) show ?thesis
      by (simp add: captureLoop.simps)
  next
    case True
    with "1.prems"(3) have
      ok: "throws e (captureTrace dir files tr0 i) (PageGoto (''file://'' @ files ! i)) = None"
          "throws e (captureTrace dir files tr0 i @ [PageGoto (''file://'' @ files ! i)])
             (PageWaitForTimeout 50) = None"
          "throws e (captureTrace dir files tr0 i
                 @ [PageGoto (''file://'' @ files ! i), PageWaitForTimeout 50])
             (PageScreenshot (outFile dir i)) = None"
      by simp_all
    have step: "captureSlide e dir files i tr = (Inr (outFile dir i), tr @ slideEvents dir files i)"
      using ok unfolding "1.prems"(1) by (rule captureSlide_ok)
    have tr1: "tr @ slideEvents dir files i = captureTrace dir files tr0 (i + 1)"
      by (simp add: "1.prems"(1) captureTrace_Suc)
    have le: "i + 1 \<le> length files"
      using True by simp
    have rest: "\<forall>k. i + 1 \<le> k \<and> k < length files \<longrightarrow>
     throws e (captureTrace dir files tr0 k) (PageGoto (''file://'' @ files ! k)) = None \<and>
     throws e (captureTrace dir files tr0 k @ [PageGoto (''file://'' @ files ! k)])
       (PageWaitForTimeout 50) = None \<and>
     throws e (captureTrace dir files tr0 k
                 @ [PageGoto (''file://'' @ files ! k), PageWaitForTimeout 50])
       (PageScreenshot (outFile dir k)) = None"
      using "1.prems"(3) by simp
    from "1.IH" [OF True _ _ tr1 le rest, of "Inr (outFile dir i)" "outFile dir i"] step
    obtain res where
      "captureLoop e dir files (i + 1) (outputs @ [outFile dir i]) (tr @ slideEvents dir files i)
         = (Inr res, captureTrace dir files tr0 (length files))"
      by auto
    with True step show ?thesis
      by (subst captureLoop.simps) simp
  qed
qed

lemma screenshotSlides_returns:
  assumes "throws e tr (FsMkdir (outDir dir) True) = None"
      and "throws e (tr @ [FsMkdir (outDir dir) True]) ChromiumLaunch = None"
      and "throws e (tr @ [FsMkdir (outDir dir) True, ChromiumLaunch])
             (BrowserNewPage 960 540) = None"
      and "\<forall>i<length files.
             throws e (captureTrace dir files tr i) (PageGoto (''file://'' @ files ! i)) = None \<and>
             throws e (captureTrace dir files tr i @ [PageGoto (''file://'' @ files ! i)])
               (PageWaitForTimeout 50) = None \<and>
             throws e (captureTrace dir files tr i
                         @ [PageGoto (''file://'' @ files ! i), PageWaitForTimeout 50])
               (PageScreenshot (outFile dir i)) = None"
      and "throws e (captureTrace dir files tr (length files)) BrowserClose = None"
  shows "\<exists>outs tr'. screenshotSlides e dir files tr = (Inr outs, tr')"
proof -
  have start: "tr @ [FsMkdir (outDir dir) True, ChromiumLaunch, BrowserNewPage WIDTH HEIGHT]
                 = captureTrace dir files tr 0"
    by (simp add: captureTrace_def setupEvents_def)
  have "\<forall>k. 0 \<le> k \<and> k < length files \<longrightarrow>
     throws e (captureTrace dir files tr k) (PageGoto (''file://'' @ files ! k)) = None \<and>
     throws e (captureTrace dir files tr k @ [PageGoto (''file://'' @ files ! k)])
       (PageWaitForTimeout 50) = None \<and>
     throws e (captureTrace dir files tr k
                 @ [PageGoto (''file://'' @ files ! k), PageWaitForTimeout 50])
       (PageScreenshot (outFile dir k)) = None"
    using assms(4) by simp
  from captureLoop_ok [OF start _ this, of "[]"]
  obtain res where loop:
    "captureLoop e dir files 0 []
       (tr @ [FsMkdir (outDir dir) True, ChromiumLaunch, BrowserNewPage WIDTH HEIGHT])
     = (Inr res, captureTrace dir files tr (length files))"
    by auto
  have "screenshotSlides e dir files tr
          = (Inr res, captureTrace dir files tr (length files) @ [BrowserClose])"
    using assms(1,2,3,5) loop
    by (simp add: screenshotSlides_def ensureDir_def call_def WIDTH_def HEIGHT_def)
  then show ?thesis
    by blast
qed

text \<open>
  Claim C3. For every list of slides, a run of \<^verbatim>\<open>screenshotSlides\<close> in which none
  of the calls it makes throws (the directory creation, the launch, the page creation,
  the navigation, wait and capture of each slide, the close) returns. And whenever
  \<^verbatim>\<open>screenshotSlides\<close> returns, it returns one path per slide of the list, in the
  order of the list; the path at 0-based position \<open>i\<close> is the output directory,
  \<open>/slide-\<close>, the number \<open>i + 1\<close> padded with zeros to two characters, and \<open>.png\<close>;
  and the run navigated to the \<open>i\<close>-th entry of the list right before it wrote that
  file, so capture \<open>i + 1\<close> is the capture of the \<open>(i + 1)\<close>-th entry.
\<close>

theorem screenshotSlides_outputs:
  "(throws e tr (FsMkdir (outDir dir) True) = None \<and>
    throws e (tr @ [FsMkdir (outDir dir) True]) ChromiumLaunch = None \<and>
    throws e (tr @ [FsMkdir (outDir dir) True, ChromiumLaunch]) (BrowserNewPage 960 540) = None \<and>
    (\<forall>i<length files.
       throws e (captureTrace dir files tr i) (PageGoto (''file://'' @ files ! i)) = None \<and>
       throws e (captureTrace dir files tr i @ [PageGoto (''file://'' @ files ! i)])
         (PageWaitForTimeout 50) = None \<and>
       throws e (captureTrace dir files tr i
                   @ [PageGoto (''file://'' @ files ! i), PageWaitForTimeout 50])
         (PageScreenshot (outFile dir i)) = None) \<and>
    throws e (captureTrace dir files tr (length files)) BrowserClose = None
    \<longrightarrow> (\<exists>outs tr'. screenshotSlides e dir files tr = (Inr outs, tr'))) \<and>
   (\<forall>outs tr'. screenshotSlides e dir files tr = (Inr outs, tr') \<longrightarrow>
      length outs = length files \<and>
      (\<forall>i<length files.
         outs ! i = outDir dir @ ''/slide-''
                      @ padStart 2 ''0'' (String_num (int i + 1)) @ ''.png'') \<and>
      tr' = tr @ [FsMkdir (outDir dir) True, ChromiumLaunch, BrowserNewPage 960 540]
              @ concat (map (\<lambda>i. [PageGoto (''file://'' @ files ! i),
                                     PageWaitForTimeout 50,
                                     PageScreenshot (outs ! i)]) [0..<length files])
              @ [BrowserClose])"
proof (rule conjI, rule impI)
  assume "throws e tr (FsMkdir (outDir dir) True) = None \<and>
    throws e (tr @ [FsMkdir (outDir dir) True]) ChromiumLaunch = None \<and>
    throws e (tr @ [FsMkdir (outDir dir) True, ChromiumLaunch]) (BrowserNewPage 960 540) = None \<and>
    (\<forall>i<length files.
       throws e (captureTrace dir files tr i) (PageGoto (''file://'' @ files ! i)) = None \<and>
       throws e (captureTrace dir files tr i @ [PageGoto (''file://'' @ files ! i)])
         (PageWaitForTimeout 50) = None \<and>
       throws e (captureTrace dir files tr i
                   @ [PageGoto (''file://'' @ files ! i), PageWaitForTimeout 50])
         (PageScreenshot (outFile dir i)) = None) \<and>
    throws e (captureTrace dir files tr (length files)) BrowserClose = None"
  then show "\<exists>outs tr'. screenshotSlides e dir files tr = (Inr outs, tr')"
    by (intro screenshotSlides_returns) simp_all
next
  show "\<forall>outs tr'. screenshotSlides e dir files tr = (Inr outs, tr') \<longrightarrow>
      length outs = length files \<and>
      (\<forall>i<length files.
         outs ! i = outDir dir @ ''/slide-''
                      @ padStart 2 ''0'' (String_num (int i + 1)) @ ''.png'') \<and>
      tr' = tr @ [FsMkdir (outDir dir) True, ChromiumLaunch, BrowserNewPage 960 540]
              @ concat (map (\<lambda>i. [PageGoto (''file://'' @ files ! i),
                                     PageWaitForTimeout 50,
                                     PageScreenshot (outs ! i)]) [0..<length files])
              @ [BrowserClose]"
  proof (intro allI impI)
    fix outs tr'
    assume run: "screenshotSlides e dir files tr = (Inr outs, tr')"
    note r = screenshotSlides_Inr [OF run]
    from r have len: "length outs = length files"
      by simp
    from r have nth: "\<forall>i<length files. outs ! i = outFile dir i"
      by simp
    have "map (slideEvents dir files) [0..<length files] =
          map (\<lambda>i. [PageGoto (''file://'' @ files ! i), PageWaitForTimeout 50,
                      PageScreenshot (outs ! i)]) [0..<length files]"
      using nth by (simp add: slideEvents_def)
    with r len nth show "length outs = length files \<and>
      (\<forall>i<length files.
         outs ! i = outDir dir @ ''/slide-''
                      @ padStart 2 ''0'' (String_num (int i + 1)) @ ''.png'') \<and>
      tr' = tr @ [FsMkdir (outDir dir) True, ChromiumLaunch, BrowserNewPage 960 540]
              @ concat (map (\<lambda>i. [PageGoto (''file://'' @ files ! i),
                                     PageWaitForTimeout 50,
                                     PageScreenshot (outs ! i)]) [0..<length files])
              @ [BrowserClose]"
      by (simp add: outFile_eq setupEvents_def WIDTH_def HEIGHT_def)
  qed
qed

theorem screenshotSlides_outputs_witness:
  "screenshotSlides quietEnv ''/deck'' (slideFiles ''/deck'') [] =
     (Inr [''/deck/preview/slide-01.png'', ''/deck/preview/slide-02.png'',
           ''/deck/preview/slide-03.png'', ''/deck/preview/slide-04.png'',
           ''/deck/preview/slide-05.png'', ''/deck/preview/slide-06.png'',
           ''/deck/preview/slide-07.png''],
      [FsMkdir ''/deck/preview'' True, ChromiumLaunch, BrowserNewPage 960 540,
       PageGoto ''file:///deck/slides/slide-01-title.html'', PageWaitForTimeout 50,
       PageScreenshot ''/deck/preview/slide-01.png'',
       PageGoto ''file:///deck/slides/slide-02-one-liner.html'', PageWaitForTimeout 50,
       PageScreenshot ''/deck/preview/slide-02.png'',
       PageGoto ''file:///deck/slides/slide-03-what-can-do.html'', PageWaitForTimeout 50,
       PageScreenshot ''/deck/preview/slide-03.png'',
       PageGoto ''file:///deck/slides/slide-04-constraints.html'', PageWaitForTimeout 50,
       PageScreenshot ''/deck/preview/slide-04.png'',
       PageGoto ''file:///deck/slides/slide-05-specialize-compose.html'', PageWaitForTimeout 50,
       PageScreenshot ''/deck/preview/slide-05.png'',
       PageGoto ''file:///deck/slides/slide-06-prompt-vs-skill.html'', PageWaitForTimeout 50,
       PageScreenshot ''/deck/preview/slide-06.png'',
       PageGoto ''file:///deck/slides/slide-07-use-cases.html'', PageWaitForTimeout 50,
       PageScreenshot ''/deck/preview/slide-07.png'',
       BrowserClose]) \<and>
   length [''/deck/preview/slide-01.png'', ''/deck/preview/slide-02.png'',
           ''/deck/preview/slide-03.png'', ''/deck/preview/slide-04.png'',
           ''/deck/preview/slide-05.png'', ''/deck/preview/slide-06.png'',
           ''/deck/preview/slide-07.png''] = length (slideFiles ''/deck'')"
proof -
  let ?outs = "[''/deck/preview/slide-01.png'', ''/deck/preview/slide-02.png'',
           ''/deck/preview/slide-03.png'', ''/deck/preview/slide-04.png'',
           ''/deck/preview/slide-05.png'', ''/deck/preview/slide-06.png'',
           ''/deck/preview/slide-07.png'']"
  have run: "screenshotSlides quietEnv ''/deck'' (slideFiles ''/deck'') [] =
     (Inr ?outs,
      [FsMkdir ''/deck/preview'' True, ChromiumLaunch, BrowserNewPage 960 540,
       PageGoto ''file:///deck/slides/slide-01-title.html'', PageWaitForTimeout 50,
       PageScreenshot ''/deck/preview/slide-01.png'',
       PageGoto ''file:///deck/slides/slide-02-one-liner.html'', PageWaitForTimeout 50,
       PageScreenshot ''/deck/preview/slide-02.png'',
       PageGoto ''file:///deck/slides/slide-03-what-can-do.html'', PageWaitForTimeout 50,
       PageScreenshot ''/deck/preview/slide-03.png'',
       PageGoto ''file:///deck/slides/slide-04-constraints.html'', PageWaitForTimeout 50,
       PageScreenshot ''/deck/preview/slide-04.png'',
       PageGoto ''file:///deck/slides/slide-05-specialize-compose.html'', PageWaitForTimeout 50,
       PageScreenshot ''/deck/preview/slide-05.png'',
       PageGoto ''file:///deck/slides/slide-06-prompt-vs-skill.html'', PageWaitForTimeout 50,
       PageScreenshot ''/deck/preview/slide-06.png'',
       PageGoto ''file:///deck/slides/slide-07-use-cases.html'', PageWaitForTimeout 50,
       PageScreenshot ''/deck/preview/slide-07.png'',
       BrowserClose])"
    by code_simp
  note inst = screenshotSlides_outputs
    [of quietEnv "[]" "''/deck''" "slideFiles ''/deck''"]
  have "\<exists>outs tr'. screenshotSlides quietEnv ''/deck'' (slideFiles ''/deck'') [] = (Inr outs, tr')"
    by (rule inst [THEN conjunct1, THEN mp]) (simp add: quietEnv_def)
  from inst [THEN conjunct2, rule_format, OF run]
  have "length ?outs = length (slideFiles ''/deck'')"
    by (rule conjunct1)
  with run show ?thesis
    by (rule conjI)
qed

text \<open>
  Claim C4. Whenever the output directory was created and the browser launched,
  \<^verbatim>\<open>screenshotSlides\<close> calls \<^verbatim>\<open>browser.close\<close> exactly once, as the last thing it
  does: whether the page could not be created, a navigation, a wait or a capture threw,
  or every slide was captured (the result is not constrained in any way).
\<close>

theorem browser_closed_once:
  assumes "throws e tr (FsMkdir (outDir dir) True) = None"
      and "throws e (tr @ [FsMkdir (outDir dir) True]) ChromiumLaunch = None"
  shows "count_list (drop (length tr) (snd (screenshotSlides e dir files tr))) BrowserClose = 1 \<and>
         last (snd (screenshotSlides e dir files tr)) = BrowserClose"
proof -
  from screenshotSlides_launched [OF assms, of files]
  obtain evs where
    tr': "snd (screenshotSlides e dir files tr)
            = tr @ [FsMkdir (outDir dir) True, ChromiumLaunch] @ evs @ [BrowserClose]" and
    evs: "BrowserClose \<notin> set evs"
    by blast
  from evs have "count_list evs BrowserClose = 0"
    by (simp add: count_list_0_iff)
  with tr' show ?thesis
    by simp
qed

theorem browser_closed_once_witness:
  "throws (failingAt (PageGoto ''file:///deck/slides/slide-02-one-liner.html'')
             (Error ''ERR_FILE_NOT_FOUND''))
      [] (FsMkdir (outDir ''/deck'') True) = None \<and>
   throws (failingAt (PageGoto ''file:///deck/slides/slide-02-one-liner.html'')
             (Error ''ERR_FILE_NOT_FOUND''))
      ([] @ [FsMkdir (outDir ''/deck'') True]) ChromiumLaunch = None \<and>
   screenshotSlides (failingAt (PageGoto ''file:///deck/slides/slide-02-one-liner.html'')
                       (Error ''ERR_FILE_NOT_FOUND''))
      ''/deck'' (slideFiles ''/deck'') []
     = (Inl (Error ''ERR_FILE_NOT_FOUND''),
        [FsMkdir ''/deck/preview'' True, ChromiumLaunch, BrowserNewPage 960 540,
         PageGoto ''file:///deck/slides/slide-01-title.html'', PageWaitForTimeout 50,
         PageScreenshot ''/deck/preview/slide-01.png'',
         PageGoto ''file:///deck/slides/slide-02-one-liner.html'', BrowserClose]) \<and>
   count_list (drop (length ([] :: event list))
       (snd (screenshotSlides (failingAt (PageGoto ''file:///deck/slides/slide-02-one-liner.html'')
                                 (Error ''ERR_FILE_NOT_FOUND''))
          ''/deck'' (slideFiles ''/deck'') []))) BrowserClose = 1 \<and>
   last (snd (screenshotSlides (failingAt (PageGoto ''file:///deck/slides/slide-02-one-liner.html'')
                                  (Error ''ERR_FILE_NOT_FOUND''))
          ''/deck'' (slideFiles ''/deck'') [])) = BrowserClose"
proof -
  let ?e = "failingAt (PageGoto ''file:///deck/slides/slide-02-one-liner.html'')
              (Error ''ERR_FILE_NOT_FOUND'')"
  have mk: "throws ?e [] (FsMkdir (outDir ''/deck'') True) = None"
    by (simp add: failingAt_def)
  have launch: "throws ?e ([] @ [FsMkdir (outDir ''/deck'') True]) ChromiumLaunch = None"
    by (simp add: failingAt_def)
  have run: "screenshotSlides ?e ''/deck'' (slideFiles ''/deck'') []
     = (Inl (Error ''ERR_FILE_NOT_FOUND''),
        [FsMkdir ''/deck/preview'' True, ChromiumLaunch, BrowserNewPage 960 540,
         PageGoto ''file:///deck/slides/slide-01-title.html'', PageWaitForTimeout 50,
         PageScreenshot ''/deck/preview/slide-01.png'',
         PageGoto ''file:///deck/slides/slide-02-one-liner.html'', BrowserClose])"
    by code_simp
  from browser_closed_once [OF mk launch, of "slideFiles ''/deck''"] mk launch run
  show ?thesis
    by blast
qed

text \<open>
  Claim C10. The first thing \<^verbatim>\<open>screenshotSlides\<close> does is to create the output
  directory, with the recursive option set (under which Node creates missing parents
  and accepts a directory that exists); and when that call throws, the run ends there
  with that error: the directory creation is the only call made, so no browser was
  launched and none is closed.
\<close>

theorem ensureDir_before_launch:
  "take (Suc (length tr)) (snd (screenshotSlides e dir files tr))
     = tr @ [FsMkdir (outDir dir) True] \<and>
   (\<forall>err. throws e tr (FsMkdir (outDir dir) True) = Some err \<longrightarrow>
      screenshotSlides e dir files tr = (Inl err, tr @ [FsMkdir (outDir dir) True]))"
proof -
  from screenshotSlides_first [of e dir files tr]
  have "take (Suc (length tr)) (snd (screenshotSlides e dir files tr))
             = tr @ [FsMkdir (outDir dir) True]"
    by auto
  moreover have "\<forall>err. throws e tr (FsMkdir (outDir dir) True) = Some err \<longrightarrow>
      screenshotSlides e dir files tr = (Inl err, tr @ [FsMkdir (outDir dir) True])"
    by (simp add: screenshotSlides_def ensureDir_def call_def)
  ultimately show ?thesis by blast
qed

theorem ensureDir_before_launch_witness:
  "throws (failingAt (FsMkdir ''/deck/preview'' True) (Error ''EACCES'')) []
      (FsMkdir (outDir ''/deck'') True) = Some (Error ''EACCES'') \<and>
   screenshotSlides (failingAt (FsMkdir ''/deck/preview'' True) (Error ''EACCES''))
      ''/deck'' (slideFiles ''/deck'') []
     = (Inl (Error ''EACCES''), [] @ [FsMkdir (outDir ''/deck'') True])"
proof -
  let ?e = "failingAt (FsMkdir ''/deck/preview'' True) (Error ''EACCES'')"
  have mk: "throws ?e [] (FsMkdir (outDir ''/deck'') True) = Some (Error ''EACCES'')"
    by (simp add: failingAt_def outDir_def path_join_def)
  from ensureDir_before_launch [of "[]" ?e "''/deck''" "slideFiles ''/deck''"] mk
  show ?thesis
    by blast
qed

section \<open>The file names of the captures\<close>

lemma digits_small: "n < 10 \<Longrightarrow> digits n = [digit_char n]"
  by (simp add: digits.simps)

lemma digits_two:
  "10 \<le> n \<Longrightarrow> n < 100 \<Longrightarrow> digits n = [digit_char (n div 10), digit_char (n mod 10)]"
  by (subst digits.simps) (simp add: digits_small)

lemma length_digits_pos: "0 < length (digits n)"
  by (subst digits.simps) simp

lemma length_digits_ge2: "10 \<le> n \<Longrightarrow> 2 \<le> length (digits n)"
  using length_digits_pos [of "n div 10"] by (subst digits.simps) (simp add: Suc_le_eq)

lemma length_digits_ge3: "100 \<le> n \<Longrightarrow> 3 \<le> length (digits n)"
  using length_digits_ge2 [of "n div 10"] by (subst digits.simps) simp

lemma of_char_digit_char: "a < 10 \<Longrightarrow> (of_char (digit_char a) :: nat) = 48 + a"
  by (simp add: digit_char_def)

lemma digit_char_less: "a < 10 \<Longrightarrow> b < 10 \<Longrightarrow> digit_char a < digit_char b \<longleftrightarrow> a < b"
  by (simp add: less_char_def of_char_digit_char)

lemma digit_char_0: "digit_char 0 = CHR ''0''"
  by code_simp

lemma String_num_int: "String_num (int n) = digits n"
  by (simp add: String_num_def)

lemma pad_two:
  assumes "n < 100"
  shows "padStart 2 ''0'' (String_num (int n)) = [digit_char (n div 10), digit_char (n mod 10)]"
proof (cases "n < 10")
  case True
  then show ?thesis
    by (simp add: String_num_int padStart_def digits_small digit_char_0)
next
  case False
  with assms show ?thesis
    by (simp add: String_num_int padStart_def digits_two)
qed

lemma pad_big:
  assumes "100 \<le> n"
  shows "padStart 2 ''0'' (String_num (int n)) = String_num (int n)"
  using length_digits_ge3 [OF assms] by (simp add: String_num_int padStart_def)

lemma pad_less:
  assumes "i < j" and "j < 100"
  shows "padStart 2 ''0'' (String_num (int i)) < padStart 2 ''0'' (String_num (int j))"
proof -
  have le: "i div 10 \<le> j div 10"
    using assms(1) by (simp add: div_le_mono)
  have "i div 10 < j div 10 \<or> (i div 10 = j div 10 \<and> i mod 10 < j mod 10)"
  proof (cases "i div 10 = j div 10")
    case False
    with le show ?thesis by simp
  next
    case True
    have "i = 10 * (i div 10) + i mod 10" and "j = 10 * (j div 10) + j mod 10"
      by simp_all
    with True assms(1) have "i mod 10 < j mod 10"
      by linarith
    with True show ?thesis by simp
  qed
  moreover have "i div 10 < 10" "j div 10 < 10"
    using assms by simp_all
  ultimately show ?thesis
    using assms by (auto simp add: pad_two digit_char_less)
qed

lemma same_prefix_less: "xs @ ys < xs @ zs \<longleftrightarrow> ys < (zs :: string)"
  by (induction xs) simp_all

lemma outFile_pad:
  "outFile dir i = (outDir dir @ ''/slide-'') @ padStart 2 ''0'' (String_num (int (Suc i))) @ ''.png''"
  by (simp add: outFile_eq add.commute)

lemma outFile_less:
  assumes "i < j" and "j < 99"
  shows "outFile dir i < outFile dir j"
proof -
  from assms have lt: "Suc i < Suc j" "Suc j < 100" "Suc i < 100"
    by simp_all
  from pad_less [OF lt(1,2)] show ?thesis
    unfolding outFile_pad same_prefix_less pad_two [OF lt(2)] pad_two [OF lt(3)]
    by auto
qed

lemma digits_100: "digits 100 = ''100''"
  by code_simp

lemma digits_99: "digits 99 = ''99''"
  by code_simp

lemma outFile_100_before_99: "outFile dir 99 < outFile dir 98"
  unfolding outFile_pad same_prefix_less
  by (simp add: String_num_def digits_100 digits_99 padStart_def)

text \<open>
  Claim C9. The numeral in the name of capture \<open>n\<close> (1-based) is \<^verbatim>\<open>String(n)\<close> padded
  with zeros on the left to at least two characters: it has exactly two characters for
  \<open>n\<close> from 1 to 99, and from 100 on it is \<^verbatim>\<open>String(n)\<close> itself, three characters or
  more, nothing cut off. So the names of the first 99 captures sort, as strings, in the
  order of the slides, and the 100th capture (\<open>slide-100.png\<close>) sorts before the 99th.
\<close>

theorem capture_numeral_width:
  "(1 \<le> n \<and> n \<le> 99 \<longrightarrow> length (padStart 2 ''0'' (String_num (int n))) = 2) \<and>
   (100 \<le> n \<longrightarrow>
      padStart 2 ''0'' (String_num (int n)) = String_num (int n) \<and>
      3 \<le> length (padStart 2 ''0'' (String_num (int n)))) \<and>
   (1 \<le> n \<longrightarrow>
      outFile dir (n - 1)
        = outDir dir @ ''/slide-'' @ padStart 2 ''0'' (String_num (int n)) @ ''.png'') \<and>
   (\<forall>i j. i < j \<and> j < 99 \<longrightarrow> outFile dir i < outFile dir j) \<and>
   outFile dir 99 < outFile dir 98"
proof -
  have "1 \<le> n \<and> n \<le> 99 \<longrightarrow> length (padStart 2 ''0'' (String_num (int n))) = 2"
    by (simp add: pad_two)
  moreover have "100 \<le> n \<longrightarrow>
      padStart 2 ''0'' (String_num (int n)) = String_num (int n) \<and>
      3 \<le> length (padStart 2 ''0'' (String_num (int n)))"
  proof
    assume big: "100 \<le> n"
    from pad_big [OF big] length_digits_ge3 [OF big]
    show "padStart 2 ''0'' (String_num (int n)) = String_num (int n) \<and>
      3 \<le> length (padStart 2 ''0'' (String_num (int n)))"
      by (simp add: String_num_int)
  qed
  moreover have "1 \<le> n \<longrightarrow>
      outFile dir (n - 1)
        = outDir dir @ ''/slide-'' @ padStart 2 ''0'' (String_num (int n)) @ ''.png''"
    by (simp add: outFile_pad)
  moreover have "\<forall>i j. i < j \<and> j < 99 \<longrightarrow> outFile dir i < outFile dir j"
    by (simp add: outFile_less)
  moreover note outFile_100_before_99 [of dir]
  ultimately show ?thesis
    by blast
qed

theorem capture_numeral_width_witness:
  "length (padStart 2 ''0'' (String_num (int 7))) = 2 \<and>
   padStart 2 ''0'' (String_num (int 123)) = String_num (int 123) \<and>
   3 \<le> length (padStart 2 ''0'' (String_num (int 123))) \<and>
   outFile ''/deck'' (7 - 1)
     = outDir ''/deck'' @ ''/slide-'' @ padStart 2 ''0'' (String_num (int 7)) @ ''.png'' \<and>
   outFile ''/deck'' 0 < outFile ''/deck'' 1"
proof -
  have small: "1 \<le> (7::nat) \<and> (7::nat) \<le> 99" and big: "100 \<le> (123::nat)"
    and one: "1 \<le> (7::nat)" and ord: "(0::nat) < 1 \<and> (1::nat) < 99"
    by simp_all
  from capture_numeral_width [of 7 "''/deck''"] small one ord
  have a: "length (padStart 2 ''0'' (String_num (int 7))) = 2"
    and c: "outFile ''/deck'' (7 - 1)
     = outDir ''/deck'' @ ''/slide-'' @ padStart 2 ''0'' (String_num (int 7)) @ ''.png''"
    and d: "outFile ''/deck'' 0 < outFile ''/deck'' 1"
    by blast+
  from capture_numeral_width [of 123 "''/deck''"] big
  have b: "padStart 2 ''0'' (String_num (int 123)) = String_num (int 123) \<and>
   3 \<le> length (padStart 2 ''0'' (String_num (int 123)))"
    by blast
  from a b c d show ?thesis
    by blast
qed

section \<open>The compositor\<close>

lemma toBuffer_Inr:
  "toBuffer e file tr = (Inr buf, tr') \<longleftrightarrow>
     throws e tr (SharpToBuffer file) = None \<and> buf = pngData e tr file \<and>
     tr' = tr @ [SharpToBuffer file]"
  by (auto simp add: toBuffer_def split: option.splits)

lemma toBuffer_Inl:
  "toBuffer e file tr = (Inl err, tr') \<longleftrightarrow>
     throws e tr (SharpToBuffer file) = Some err \<and> tr' = tr @ [SharpToBuffer file]"
  by (auto simp add: toBuffer_def split: option.splits)

lemma decodeTrace_Suc:
  "k < length images \<Longrightarrow>
     decodeTrace tr images (Suc k) = decodeTrace tr images k @ [SharpToBuffer (images ! k)]"
  by (simp add: decodeTrace_def take_Suc_conv_app_nth)

text \<open>
  A loop that returns has decoded every remaining image, in the order of the list, and
  has pushed the two overlays of each.
\<close>

lemma compositeLoop_Inr:
  "compositeLoop e images idx composites tr = (Inr res, tr') \<Longrightarrow>
   tr = decodeTrace tr0 images idx \<Longrightarrow>
     res = composites
             @ concat (map (\<lambda>k. cellOverlays (pngData e (decodeTrace tr0 images k) (images ! k)) k)
                         [idx..<length images]) \<and>
     tr' = decodeTrace tr0 images (length images)"
proof (induction e images idx composites tr rule: compositeLoop.induct)
  case (1 e images idx composites tr)
  show ?case
  proof (cases "idx < length images")
    case False
    with "1.prems" show ?thesis
      by (simp add: compositeLoop.simps decodeTrace_def)
  next
    case True
    obtain r tr1 where step: "toBuffer e (images ! idx) tr = (r, tr1)"
      by (cases "toBuffer e (images ! idx) tr")
    show ?thesis
    proof (cases r)
      case (Inl err)
      with True step "1.prems" show ?thesis
        by (simp add: compositeLoop.simps)
    next
      case (Inr buf)
      with step have buf: "buf = pngData e tr (images ! idx)"
        and tr1: "tr1 = tr @ [SharpToBuffer (images ! idx)]"
        by (simp_all add: toBuffer_Inr)
      from tr1 "1.prems"(2) True have tr1': "tr1 = decodeTrace tr0 images (idx + 1)"
        by (simp add: decodeTrace_Suc)
      from True step Inr "1.prems"(1)
      have rec: "compositeLoop e images (idx + 1)
                   (composites @ [\<lparr>input = buf, left = cellX idx, top_px = cellY idx\<rparr>]
                      @ [\<lparr>input = labelSvg idx, left = cellX idx, top_px = cellY idx + HEIGHT\<rparr>])
                   tr1 = (Inr res, tr')"
        by (simp add: compositeLoop.simps)
      note ih = "1.IH" [OF True _ _ rec tr1']
      from True have upt: "[idx..<length images] = idx # [idx + 1..<length images]"
        by (simp add: upt_conv_Cons)
      show ?thesis
        using ih step Inr buf "1.prems"(2) by (simp add: upt cellOverlays_def)
    qed
  qed
qed

text \<open>
  A loop whose first failing decode is the one of image \<open>k\<close> stops there with that error.
\<close>

lemma compositeLoop_Inl:
  "tr = decodeTrace tr0 images idx \<Longrightarrow> idx \<le> k \<Longrightarrow> k < length images \<Longrightarrow>
   \<forall>j. idx \<le> j \<and> j < k \<longrightarrow>
        throws e (decodeTrace tr0 images j) (SharpToBuffer (images ! j)) = None \<Longrightarrow>
   throws e (decodeTrace tr0 images k) (SharpToBuffer (images ! k)) = Some err \<Longrightarrow>
   compositeLoop e images idx composites tr = (Inl err, decodeTrace tr0 images (Suc k))"
proof (induction e images idx composites tr rule: compositeLoop.induct)
  case (1 e images idx composites tr)
  from "1.prems" have lt: "idx < length images"
    by simp
  show ?case
  proof (cases "idx = k")
    case True
    with "1.prems" lt show ?thesis
      by (subst compositeLoop.simps) (simp add: toBuffer_def decodeTrace_Suc)
  next
    case False
    with "1.prems" have less: "idx < k" and
      ok: "throws e tr (SharpToBuffer (images ! idx)) = None"
      by simp_all
    let ?buf = "pngData e tr (images ! idx)"
    let ?tr1 = "tr @ [SharpToBuffer (images ! idx)]"
    have step: "toBuffer e (images ! idx) tr = (Inr ?buf, ?tr1)"
      using ok by (simp add: toBuffer_def)
    have tr1: "?tr1 = decodeTrace tr0 images (idx + 1)"
      using "1.prems"(1) lt by (simp add: decodeTrace_Suc)
    have "compositeLoop e images (idx + 1)
            (composites @ [\<lparr>input = ?buf, left = cellX idx, top_px = cellY idx\<rparr>]
               @ [\<lparr>input = labelSvg idx, left = cellX idx, top_px = cellY idx + HEIGHT\<rparr>])
            ?tr1 = (Inl err, decodeTrace tr0 images (Suc k))"
      using "1.IH" [OF lt _ _ tr1] step less "1.prems"(3,4,5) by simp
    with lt step show ?thesis
      by (subst compositeLoop.simps) simp
  qed
qed

lemma makeGrid_Inr:
  assumes "makeGrid e dir images tr = (Inr u, tr')"
  shows "tr' = tr @ map SharpToBuffer images
                @ [SharpToFile (outGrid dir) (base (length images)) (gridOverlays e images tr),
                   ConsoleLog (outGrid dir)]"
proof -
  from assms obtain comps tr1 where
    loop: "compositeLoop e images 0 [] tr = (Inr comps, tr1)" and
    fin: "tr' = tr1 @ [SharpToFile (outGrid dir) (base (length images)) comps,
                       ConsoleLog (outGrid dir)]"
    by (auto simp add: makeGrid_def call_def split: prod.splits sum.splits option.splits)
  have "tr = decodeTrace tr images 0"
    by (simp add: decodeTrace_def)
  from compositeLoop_Inr [OF loop this] fin show ?thesis
    by (simp add: gridOverlays_def decodeTrace_def)
qed

text \<open>A run in which no decode throws, and not the write, returns.\<close>

lemma compositeLoop_ok:
  "tr = decodeTrace tr0 images idx \<Longrightarrow>
   \<forall>j. idx \<le> j \<and> j < length images \<longrightarrow>
        throws e (decodeTrace tr0 images j) (SharpToBuffer (images ! j)) = None \<Longrightarrow>
   \<exists>res. compositeLoop e images idx composites tr
           = (Inr res, decodeTrace tr0 images (length images))"
proof (induction e images idx composites tr rule: compositeLoop.induct)
  case (1 e images idx composites tr)
  show ?case
  proof (cases "idx < length images")
    case False
    with "1.prems"(1) show ?thesis
      by (simp add: compositeLoop.simps decodeTrace_def)
  next
    case True
    with "1.prems" have ok: "throws e tr (SharpToBuffer (images ! idx)) = None"
      by simp
    let ?buf = "pngData e tr (images ! idx)"
    let ?tr1 = "tr @ [SharpToBuffer (images ! idx)]"
    have step: "toBuffer e (images ! idx) tr = (Inr ?buf, ?tr1)"
      using ok by (simp add: toBuffer_def)
    have tr1: "?tr1 = decodeTrace tr0 images (idx + 1)"
      using "1.prems"(1) True by (simp add: decodeTrace_Suc)
    have rest: "\<forall>j. idx + 1 \<le> j \<and> j < length images \<longrightarrow>
        throws e (decodeTrace tr0 images j) (SharpToBuffer (images ! j)) = None"
      using "1.prems"(2) by simp
    from "1.IH" [OF True _ _ tr1 rest] step
    obtain res where
      "compositeLoop e images (idx + 1)
         (composites @ [\<lparr>input = ?buf, left = cellX idx, top_px = cellY idx\<rparr>]
            @ [\<lparr>input = labelSvg idx, left = cellX idx, top_px = cellY idx + HEIGHT\<rparr>])
         ?tr1 = (Inr res, decodeTrace tr0 images (length images))"
      by auto
    with True step show ?thesis
      by (subst compositeLoop.simps) simp
  qed
qed

lemma makeGrid_returns:
  assumes "\<forall>j<length images. throws e (tr @ map SharpToBuffer (take j images))
                                 (SharpToBuffer (images ! j)) = None"
      and "\<forall>cv ovs. throws e (tr @ map SharpToBuffer images)
                        (SharpToFile (outGrid dir) cv ovs) = None"
  shows "\<exists>tr'. makeGrid e dir images tr = (Inr (), tr')"
proof -
  have "tr = decodeTrace tr images 0"
    by (simp add: decodeTrace_def)
  moreover have "\<forall>j. 0 \<le> j \<and> j < length images \<longrightarrow>
        throws e (decodeTrace tr images j) (SharpToBuffer (images ! j)) = None"
    using assms(1) by (simp add: decodeTrace_def)
  ultimately obtain res where
    "compositeLoop e images 0 [] tr = (Inr res, decodeTrace tr images (length images))"
    using compositeLoop_ok [of tr tr images 0 e "[]"] by auto
  with assms(2) show ?thesis
    by (simp add: makeGrid_def call_def decodeTrace_def)
qed

lemma pairs_length: "length (concat (map (\<lambda>k. [f k, g k]) [0..<n])) = 2 * n"
  by (induction n) simp_all

lemma pairs_nth:
  "i < n \<Longrightarrow> concat (map (\<lambda>k. [f k, g k]) [0..<n]) ! (2 * i) = f i \<and>
             concat (map (\<lambda>k. [f k, g k]) [0..<n]) ! (2 * i + 1) = g i"
proof (induction n)
  case 0
  then show ?case by simp
next
  case (Suc n)
  show ?case
  proof (cases "i < n")
    case True
    with Suc.IH show ?thesis
      by (simp add: nth_append pairs_length)
  next
    case False
    with Suc.prems have "i = n" by simp
    then show ?thesis
      by (simp add: nth_append pairs_length)
  qed
qed

lemma gridOverlays_length: "length (gridOverlays e images tr) = 2 * length images"
  by (simp add: gridOverlays_def cellOverlays_def pairs_length)

lemma gridOverlays_nth:
  assumes "i < length images"
  shows "gridOverlays e images tr ! (2 * i) =
           \<lparr>input = pngData e (decodeTrace tr images i) (images ! i),
            left = cellX i, top_px = cellY i\<rparr> \<and>
         gridOverlays e images tr ! (2 * i + 1) =
           \<lparr>input = labelSvg i, left = cellX i, top_px = cellY i + HEIGHT\<rparr>"
  using pairs_nth [OF assms] by (simp add: gridOverlays_def cellOverlays_def)

subsection \<open>The geometry of the grid\<close>

lemma gridRows_div: "gridRows n = (int n + 3) div 4"
proof -
  have "gridRows n = \<lceil>real_of_int (int n) / real_of_int 4\<rceil>"
    by (simp add: gridRows_def COLS_def)
  also have "\<dots> = - (- int n div 4)"
    by (rule ceiling_divide_eq_div)
  also have "\<dots> = (int n + 3) div 4"
    by presburger
  finally show ?thesis .
qed

lemma cellRow_div: "cellRow idx = int idx div COLS"
proof -
  have "cellRow idx = \<lfloor>real_of_int (int idx) / real_of_int COLS\<rfloor>"
    by (simp add: cellRow_def)
  also have "\<dots> = int idx div COLS"
    by (rule floor_divide_of_int_eq)
  finally show ?thesis .
qed

lemma cellCol_mod: "cellCol idx = int idx mod COLS"
  by (simp add: cellCol_def COLS_def signed_modulo_int_def sgn_if abs_if)

lemma cellX_eq: "cellX i = GAP + (int i mod COLS) * (WIDTH + GAP)"
  by (simp add: cellX_def cellCol_mod)

lemma cellY_eq: "cellY i = GAP + (int i div COLS) * (HEIGHT + LABEL_H + GAP)"
  by (simp add: cellY_def cellRow_div)

lemma separated:
  fixes a b r s :: int
  assumes "a \<noteq> b \<or> r \<noteq> s"
  shows "18 + a * 978 + 960 \<le> 18 + b * 978 \<or> 18 + b * 978 + 960 \<le> 18 + a * 978 \<or>
         18 + r * 588 + 570 \<le> 18 + s * 588 \<or> 18 + s * 588 + 570 \<le> 18 + r * 588"
  using assms by arith

lemma div_mod_differ:
  assumes "i \<noteq> (j::nat)"
  shows "int i mod 4 \<noteq> int j mod 4 \<or> int i div 4 \<noteq> int j div 4"
proof (rule ccontr)
  assume "\<not> ?thesis"
  then have m: "int i mod 4 = int j mod 4" and d: "int i div 4 = int j div 4"
    by simp_all
  have "int i = 4 * (int i div 4) + int i mod 4"
    by simp
  also have "\<dots> = 4 * (int j div 4) + int j mod 4"
    by (simp only: m d)
  also have "\<dots> = int j"
    by simp
  finally show False
    using assms by simp
qed

lemma cells_disjoint:
  assumes "i \<noteq> j"
  shows "cellX i + WIDTH \<le> cellX j \<or> cellX j + WIDTH \<le> cellX i \<or>
         cellY i + (HEIGHT + LABEL_H) \<le> cellY j \<or> cellY j + (HEIGHT + LABEL_H) \<le> cellY i"
  using separated [OF div_mod_differ [OF assms]]
  by (simp add: cellX_eq cellY_eq COLS_def WIDTH_def GAP_def HEIGHT_def LABEL_H_def)

lemma inside:
  fixes a r m :: int
  assumes "0 \<le> a" "a \<le> 3" "0 \<le> r" "r + 1 \<le> m"
  shows "0 \<le> 18 + a * 978 - 18 \<and> 18 + a * 978 + 960 + 18 \<le> 4 * 960 + (4 + 1) * 18 \<and>
         0 \<le> 18 + r * 588 - 18 \<and> 18 + r * 588 + (540 + 30) + 18 \<le> m * (540 + 30) + (m + 1) * 18"
proof -
  have "0 \<le> 18 + a * 978 - 18"
    using assms(1) by simp
  moreover have "18 + a * 978 + 960 + 18 \<le> 4 * 960 + (4 + 1) * 18"
    using assms(2) by simp
  moreover have "0 \<le> 18 + r * 588 - 18"
    using assms(3) by simp
  moreover have "18 + r * 588 + (540 + 30) + 18 \<le> m * (540 + 30) + (m + 1) * 18"
    using assms(4) by (simp add: algebra_simps)
  ultimately show ?thesis
    by blast
qed

lemma cell_inside:
  assumes "i < n"
  shows "0 \<le> cellX i - GAP \<and> cellX i + WIDTH + GAP \<le> gridW \<and>
         0 \<le> cellY i - GAP \<and> cellY i + (HEIGHT + LABEL_H) + GAP \<le> gridH n"
proof -
  have col: "0 \<le> int i mod 4" "int i mod 4 \<le> 3"
    by simp_all
  have row: "0 \<le> int i div 4" "int i div 4 + 1 \<le> (int n + 3) div 4"
    using assms by simp_all
  from inside [OF col row] show ?thesis
    by (simp add: cellX_eq cellY_eq gridW_def gridH_def gridRows_div
        COLS_def WIDTH_def GAP_def HEIGHT_def LABEL_H_def)
qed

lemma bottom:
  fixes r m :: int
  assumes "r + 1 = m"
  shows "18 + r * 588 + (540 + 30) + 18 = m * (540 + 30) + (m + 1) * 18"
  unfolding assms [symmetric] by (simp add: algebra_simps)

lemma last_cell_bottom:
  assumes "0 < n"
  shows "cellY (n - 1) + (HEIGHT + LABEL_H) + GAP = gridH n"
proof -
  from assms obtain m where n: "n = Suc m"
    by (cases n) simp_all
  have "int m div 4 + 1 = (int m + 4) div 4"
    by simp
  then have "int (n - 1) div 4 + 1 = (int n + 3) div 4"
    by (simp add: n)
  from bottom [OF this] show ?thesis
    by (simp add: cellY_eq gridH_def gridRows_div
        COLS_def WIDTH_def GAP_def HEIGHT_def LABEL_H_def)
qed

lemma gridRows_nonneg: "0 \<le> gridRows n"
  by (simp add: gridRows_div)

lemma gridH_pos: "0 < gridH n"
proof -
  have "0 \<le> gridRows n * 570" "0 \<le> gridRows n * 18"
    using gridRows_nonneg [of n] by simp_all
  then show ?thesis
    by (simp add: gridH_def HEIGHT_def LABEL_H_def GAP_def algebra_simps)
qed

text \<open>
  Claim C1. For every list of \<open>N\<close> images, a run of \<^verbatim>\<open>makeGrid\<close> in which no decode
  throws, and not the write, returns. And every run that returns has written one
  composite: its canvas is \<open>COLS * WIDTH + (COLS + 1) * GAP\<close> wide and
  \<open>rows * (HEIGHT + LABEL_H) + (rows + 1) * GAP\<close> high with \<open>rows = ceil (N / COLS)\<close>; it
  has two overlays per image; the overlay at slot \<open>2 * i\<close> holds the decoded image of
  0-based index \<open>i\<close> and is placed at \<open>x = GAP + (i mod COLS) * (WIDTH + GAP)\<close>,
  \<open>y = GAP + (i div COLS) * (HEIGHT + LABEL_H + GAP)\<close>, and the overlay at slot
  \<open>2 * i + 1\<close> is its label band, at the same \<open>x\<close> and at \<open>y + HEIGHT\<close>. This holds
  for every \<open>N\<close>, so for every \<open>N \<ge> 1\<close>.
\<close>

theorem makeGrid_layout:
  "((\<forall>j<length images. throws e (tr @ map SharpToBuffer (take j images))
                               (SharpToBuffer (images ! j)) = None) \<and>
    (\<forall>cv ovs. throws e (tr @ map SharpToBuffer images)
                 (SharpToFile (outGrid dir) cv ovs) = None)
    \<longrightarrow> (\<exists>tr'. makeGrid e dir images tr = (Inr (), tr'))) \<and>
   (\<forall>u tr'. makeGrid e dir images tr = (Inr u, tr') \<longrightarrow>
      (\<exists>ovs.
      tr' = tr @ map SharpToBuffer images
              @ [SharpToFile (outGrid dir)
                   \<lparr>width = COLS * WIDTH + (COLS + 1) * GAP,
                    height = \<lceil>real (length images) / real_of_int COLS\<rceil> * (HEIGHT + LABEL_H)
                               + (\<lceil>real (length images) / real_of_int COLS\<rceil> + 1) * GAP,
                    channels = 4, background = (20, 23, 32, 1)\<rparr>
                   ovs,
                 ConsoleLog (outGrid dir)] \<and>
      length ovs = 2 * length images \<and>
      (\<forall>i<length images.
         input (ovs ! (2 * i))
           = pngData e (tr @ map SharpToBuffer (take i images)) (images ! i) \<and>
         left (ovs ! (2 * i)) = GAP + (int i mod COLS) * (WIDTH + GAP) \<and>
         top_px (ovs ! (2 * i)) = GAP + (int i div COLS) * (HEIGHT + LABEL_H + GAP) \<and>
         input (ovs ! (2 * i + 1)) = labelSvg i \<and>
         left (ovs ! (2 * i + 1)) = left (ovs ! (2 * i)) \<and>
         top_px (ovs ! (2 * i + 1)) = top_px (ovs ! (2 * i)) + HEIGHT)))"
proof (rule conjI, rule impI)
  assume "(\<forall>j<length images. throws e (tr @ map SharpToBuffer (take j images))
                               (SharpToBuffer (images ! j)) = None) \<and>
    (\<forall>cv ovs. throws e (tr @ map SharpToBuffer images)
                 (SharpToFile (outGrid dir) cv ovs) = None)"
  then show "\<exists>tr'. makeGrid e dir images tr = (Inr (), tr')"
    by (intro makeGrid_returns) simp_all
next
  show "\<forall>u tr'. makeGrid e dir images tr = (Inr u, tr') \<longrightarrow>
      (\<exists>ovs.
      tr' = tr @ map SharpToBuffer images
              @ [SharpToFile (outGrid dir)
                   \<lparr>width = COLS * WIDTH + (COLS + 1) * GAP,
                    height = \<lceil>real (length images) / real_of_int COLS\<rceil> * (HEIGHT + LABEL_H)
                               + (\<lceil>real (length images) / real_of_int COLS\<rceil> + 1) * GAP,
                    channels = 4, background = (20, 23, 32, 1)\<rparr>
                   ovs,
                 ConsoleLog (outGrid dir)] \<and>
      length ovs = 2 * length images \<and>
      (\<forall>i<length images.
         input (ovs ! (2 * i))
           = pngData e (tr @ map SharpToBuffer (take i images)) (images ! i) \<and>
         left (ovs ! (2 * i)) = GAP + (int i mod COLS) * (WIDTH + GAP) \<and>
         top_px (ovs ! (2 * i)) = GAP + (int i div COLS) * (HEIGHT + LABEL_H + GAP) \<and>
         input (ovs ! (2 * i + 1)) = labelSvg i \<and>
         left (ovs ! (2 * i + 1)) = left (ovs ! (2 * i)) \<and>
         top_px (ovs ! (2 * i + 1)) = top_px (ovs ! (2 * i)) + HEIGHT))"
  proof (intro allI impI)
    fix u tr'
    assume run: "makeGrid e dir images tr = (Inr u, tr')"
    let ?ovs = "gridOverlays e images tr"
    have "tr' = tr @ map SharpToBuffer images
                @ [SharpToFile (outGrid dir)
                     \<lparr>width = COLS * WIDTH + (COLS + 1) * GAP,
                      height = \<lceil>real (length images) / real_of_int COLS\<rceil> * (HEIGHT + LABEL_H)
                                 + (\<lceil>real (length images) / real_of_int COLS\<rceil> + 1) * GAP,
                      channels = 4, background = (20, 23, 32, 1)\<rparr>
                     ?ovs,
                   ConsoleLog (outGrid dir)]"
      using makeGrid_Inr [OF run] by (simp add: base_def gridW_def gridH_def gridRows_def)
    moreover have "length ?ovs = 2 * length images"
      by (rule gridOverlays_length)
    moreover have "\<forall>i<length images.
           input (?ovs ! (2 * i))
             = pngData e (tr @ map SharpToBuffer (take i images)) (images ! i) \<and>
           left (?ovs ! (2 * i)) = GAP + (int i mod COLS) * (WIDTH + GAP) \<and>
           top_px (?ovs ! (2 * i)) = GAP + (int i div COLS) * (HEIGHT + LABEL_H + GAP) \<and>
           input (?ovs ! (2 * i + 1)) = labelSvg i \<and>
           left (?ovs ! (2 * i + 1)) = left (?ovs ! (2 * i)) \<and>
           top_px (?ovs ! (2 * i + 1)) = top_px (?ovs ! (2 * i)) + HEIGHT"
      using gridOverlays_nth [of _ images e tr] by (simp add: cellX_eq cellY_eq decodeTrace_def)
    ultimately show "\<exists>ovs.
        tr' = tr @ map SharpToBuffer images
                @ [SharpToFile (outGrid dir)
                     \<lparr>width = COLS * WIDTH + (COLS + 1) * GAP,
                      height = \<lceil>real (length images) / real_of_int COLS\<rceil> * (HEIGHT + LABEL_H)
                                 + (\<lceil>real (length images) / real_of_int COLS\<rceil> + 1) * GAP,
                      channels = 4, background = (20, 23, 32, 1)\<rparr>
                     ovs,
                   ConsoleLog (outGrid dir)] \<and>
        length ovs = 2 * length images \<and>
        (\<forall>i<length images.
           input (ovs ! (2 * i))
             = pngData e (tr @ map SharpToBuffer (take i images)) (images ! i) \<and>
           left (ovs ! (2 * i)) = GAP + (int i mod COLS) * (WIDTH + GAP) \<and>
           top_px (ovs ! (2 * i)) = GAP + (int i div COLS) * (HEIGHT + LABEL_H + GAP) \<and>
           input (ovs ! (2 * i + 1)) = labelSvg i \<and>
           left (ovs ! (2 * i + 1)) = left (ovs ! (2 * i)) \<and>
           top_px (ovs ! (2 * i + 1)) = top_px (ovs ! (2 * i)) + HEIGHT)"
      by blast
  qed
qed

theorem makeGrid_layout_witness:
  "makeGrid quietEnv ''/deck''
     [''/deck/preview/slide-01.png'', ''/deck/preview/slide-02.png'',
      ''/deck/preview/slide-03.png'', ''/deck/preview/slide-04.png'',
      ''/deck/preview/slide-05.png'', ''/deck/preview/slide-06.png'',
      ''/deck/preview/slide-07.png''] []
   = (Inr (),
      [SharpToBuffer ''/deck/preview/slide-01.png'', SharpToBuffer ''/deck/preview/slide-02.png'',
       SharpToBuffer ''/deck/preview/slide-03.png'', SharpToBuffer ''/deck/preview/slide-04.png'',
       SharpToBuffer ''/deck/preview/slide-05.png'', SharpToBuffer ''/deck/preview/slide-06.png'',
       SharpToBuffer ''/deck/preview/slide-07.png'',
       SharpToFile ''/deck/preview-grid.png''
         \<lparr>width = 3930, height = 1194, channels = 4, background = (20, 23, 32, 1)\<rparr>
         [\<lparr>input = ''PNG:/deck/preview/slide-01.png'', left = 18, top_px = 18\<rparr>,
          \<lparr>input = labelSvg 0, left = 18, top_px = 558\<rparr>,
          \<lparr>input = ''PNG:/deck/preview/slide-02.png'', left = 996, top_px = 18\<rparr>,
          \<lparr>input = labelSvg 1, left = 996, top_px = 558\<rparr>,
          \<lparr>input = ''PNG:/deck/preview/slide-03.png'', left = 1974, top_px = 18\<rparr>,
          \<lparr>input = labelSvg 2, left = 1974, top_px = 558\<rparr>,
          \<lparr>input = ''PNG:/deck/preview/slide-04.png'', left = 2952, top_px = 18\<rparr>,
          \<lparr>input = labelSvg 3, left = 2952, top_px = 558\<rparr>,
          \<lparr>input = ''PNG:/deck/preview/slide-05.png'', left = 18, top_px = 606\<rparr>,
          \<lparr>input = labelSvg 4, left = 18, top_px = 1146\<rparr>,
          \<lparr>input = ''PNG:/deck/preview/slide-06.png'', left = 996, top_px = 606\<rparr>,
          \<lparr>input = labelSvg 5, left = 996, top_px = 1146\<rparr>,
          \<lparr>input = ''PNG:/deck/preview/slide-07.png'', left = 1974, top_px = 606\<rparr>,
          \<lparr>input = labelSvg 6, left = 1974, top_px = 1146\<rparr>],
       ConsoleLog ''/deck/preview-grid.png'']) \<and>
   length
     [\<lparr>input = ''PNG:/deck/preview/slide-01.png'', left = 18, top_px = 18\<rparr>,
      \<lparr>input = labelSvg 0, left = 18, top_px = 558\<rparr>,
      \<lparr>input = ''PNG:/deck/preview/slide-02.png'', left = 996, top_px = 18\<rparr>,
      \<lparr>input = labelSvg 1, left = 996, top_px = 558\<rparr>,
      \<lparr>input = ''PNG:/deck/preview/slide-03.png'', left = 1974, top_px = 18\<rparr>,
      \<lparr>input = labelSvg 2, left = 1974, top_px = 558\<rparr>,
      \<lparr>input = ''PNG:/deck/preview/slide-04.png'', left = 2952, top_px = 18\<rparr>,
      \<lparr>input = labelSvg 3, left = 2952, top_px = 558\<rparr>,
      \<lparr>input = ''PNG:/deck/preview/slide-05.png'', left = 18, top_px = 606\<rparr>,
      \<lparr>input = labelSvg 4, left = 18, top_px = 1146\<rparr>,
      \<lparr>input = ''PNG:/deck/preview/slide-06.png'', left = 996, top_px = 606\<rparr>,
      \<lparr>input = labelSvg 5, left = 996, top_px = 1146\<rparr>,
      \<lparr>input = ''PNG:/deck/preview/slide-07.png'', left = 1974, top_px = 606\<rparr>,
      \<lparr>input = labelSvg 6, left = 1974, top_px = 1146\<rparr>]
   = 2 * length
     [''/deck/preview/slide-01.png'', ''/deck/preview/slide-02.png'',
      ''/deck/preview/slide-03.png'', ''/deck/preview/slide-04.png'',
      ''/deck/preview/slide-05.png'', ''/deck/preview/slide-06.png'',
      ''/deck/preview/slide-07.png'']"
  (is "?run \<and> length ?OVS = 2 * length ?IMGS")
proof -
  have run: ?run
    by code_simp
  note inst = makeGrid_layout [of ?IMGS quietEnv "[]" "''/deck''"]
  have "\<exists>tr'. makeGrid quietEnv ''/deck'' ?IMGS [] = (Inr (), tr')"
    by (rule inst [THEN conjunct1, THEN mp]) (simp add: quietEnv_def)
  from inst [THEN conjunct2, rule_format, OF run] obtain ovs where
    tr: "[SharpToBuffer ''/deck/preview/slide-01.png'', SharpToBuffer ''/deck/preview/slide-02.png'',
       SharpToBuffer ''/deck/preview/slide-03.png'', SharpToBuffer ''/deck/preview/slide-04.png'',
       SharpToBuffer ''/deck/preview/slide-05.png'', SharpToBuffer ''/deck/preview/slide-06.png'',
       SharpToBuffer ''/deck/preview/slide-07.png'',
       SharpToFile ''/deck/preview-grid.png''
         \<lparr>width = 3930, height = 1194, channels = 4, background = (20, 23, 32, 1)\<rparr> ?OVS,
       ConsoleLog ''/deck/preview-grid.png'']
      = [] @ map SharpToBuffer ?IMGS
              @ [SharpToFile (outGrid ''/deck'')
                   \<lparr>width = COLS * WIDTH + (COLS + 1) * GAP,
                    height = \<lceil>real (length ?IMGS) / real_of_int COLS\<rceil> * (HEIGHT + LABEL_H)
                               + (\<lceil>real (length ?IMGS) / real_of_int COLS\<rceil> + 1) * GAP,
                    channels = 4, background = (20, 23, 32, 1)\<rparr>
                   ovs,
                 ConsoleLog (outGrid ''/deck'')]"
    and len: "length ovs = 2 * length ?IMGS"
    by blast
  from tr have "ovs = ?OVS"
    by simp
  with len have "length ?OVS = 2 * length ?IMGS"
    by simp
  with run show ?thesis
    by (rule conjI)
qed

text \<open>
  Claim C2. For every list of \<open>N\<close> images, a run of \<^verbatim>\<open>makeGrid\<close> in which no decode
  throws, and not the write, returns. And in the composite a returning run writes, the
  cells (each \<open>WIDTH\<close> wide and \<open>HEIGHT + LABEL_H\<close> high, at the origin of its image)
  of two different indices do not overlap: one lies wholly to the left of, to the right
  of, above or below the other. Every cell, with a gap of \<open>GAP\<close> on each side, lies
  within the canvas; the canvas is exactly \<open>COLS\<close> cells and \<open>COLS + 1\<close> gaps wide, and
  the last cell's bottom gap ends exactly at the canvas height.
\<close>

theorem makeGrid_cells_disjoint:
  "((\<forall>j<length images. throws e (tr @ map SharpToBuffer (take j images))
                               (SharpToBuffer (images ! j)) = None) \<and>
    (\<forall>cv ovs. throws e (tr @ map SharpToBuffer images)
                 (SharpToFile (outGrid dir) cv ovs) = None)
    \<longrightarrow> (\<exists>tr'. makeGrid e dir images tr = (Inr (), tr'))) \<and>
   (\<forall>u tr'. makeGrid e dir images tr = (Inr u, tr') \<longrightarrow>
      (\<exists>cv ovs.
      tr' = tr @ map SharpToBuffer images
              @ [SharpToFile (outGrid dir) cv ovs, ConsoleLog (outGrid dir)] \<and>
      (\<forall>i<length images. \<forall>j<length images. i \<noteq> j \<longrightarrow>
         left (ovs ! (2 * i)) + WIDTH \<le> left (ovs ! (2 * j)) \<or>
         left (ovs ! (2 * j)) + WIDTH \<le> left (ovs ! (2 * i)) \<or>
         top_px (ovs ! (2 * i)) + (HEIGHT + LABEL_H) \<le> top_px (ovs ! (2 * j)) \<or>
         top_px (ovs ! (2 * j)) + (HEIGHT + LABEL_H) \<le> top_px (ovs ! (2 * i))) \<and>
      (\<forall>i<length images.
         0 \<le> left (ovs ! (2 * i)) - GAP \<and>
         left (ovs ! (2 * i)) + WIDTH + GAP \<le> width cv \<and>
         0 \<le> top_px (ovs ! (2 * i)) - GAP \<and>
         top_px (ovs ! (2 * i)) + (HEIGHT + LABEL_H) + GAP \<le> height cv) \<and>
      width cv = GAP + COLS * (WIDTH + GAP) \<and>
      (images \<noteq> [] \<longrightarrow>
         top_px (ovs ! (2 * (length images - 1))) + (HEIGHT + LABEL_H) + GAP = height cv)))"
proof (rule conjI, rule impI)
  assume "(\<forall>j<length images. throws e (tr @ map SharpToBuffer (take j images))
                               (SharpToBuffer (images ! j)) = None) \<and>
    (\<forall>cv ovs. throws e (tr @ map SharpToBuffer images)
                 (SharpToFile (outGrid dir) cv ovs) = None)"
  then show "\<exists>tr'. makeGrid e dir images tr = (Inr (), tr')"
    by (intro makeGrid_returns) simp_all
next
  show "\<forall>u tr'. makeGrid e dir images tr = (Inr u, tr') \<longrightarrow>
      (\<exists>cv ovs.
      tr' = tr @ map SharpToBuffer images
              @ [SharpToFile (outGrid dir) cv ovs, ConsoleLog (outGrid dir)] \<and>
      (\<forall>i<length images. \<forall>j<length images. i \<noteq> j \<longrightarrow>
         left (ovs ! (2 * i)) + WIDTH \<le> left (ovs ! (2 * j)) \<or>
         left (ovs ! (2 * j)) + WIDTH \<le> left (ovs ! (2 * i)) \<or>
         top_px (ovs ! (2 * i)) + (HEIGHT + LABEL_H) \<le> top_px (ovs ! (2 * j)) \<or>
         top_px (ovs ! (2 * j)) + (HEIGHT + LABEL_H) \<le> top_px (ovs ! (2 * i))) \<and>
      (\<forall>i<length images.
         0 \<le> left (ovs ! (2 * i)) - GAP \<and>
         left (ovs ! (2 * i)) + WIDTH + GAP \<le> width cv \<and>
         0 \<le> top_px (ovs ! (2 * i)) - GAP \<and>
         top_px (ovs ! (2 * i)) + (HEIGHT + LABEL_H) + GAP \<le> height cv) \<and>
      width cv = GAP + COLS * (WIDTH + GAP) \<and>
      (images \<noteq> [] \<longrightarrow>
         top_px (ovs ! (2 * (length images - 1))) + (HEIGHT + LABEL_H) + GAP = height cv))"
  proof (intro allI impI)
    fix u tr'
    assume run: "makeGrid e dir images tr = (Inr u, tr')"
    let ?ovs = "gridOverlays e images tr"
    let ?cv = "base (length images)"
    have pos: "\<And>i. i < length images \<Longrightarrow>
                 left (?ovs ! (2 * i)) = cellX i \<and> top_px (?ovs ! (2 * i)) = cellY i"
      using gridOverlays_nth [of _ images e tr] by simp
    have cv: "width ?cv = gridW" "height ?cv = gridH (length images)"
      by (simp_all add: base_def)
    have "tr' = tr @ map SharpToBuffer images
                @ [SharpToFile (outGrid dir) ?cv ?ovs, ConsoleLog (outGrid dir)]"
      by (rule makeGrid_Inr [OF run])
    moreover have "\<forall>i<length images. \<forall>j<length images. i \<noteq> j \<longrightarrow>
           left (?ovs ! (2 * i)) + WIDTH \<le> left (?ovs ! (2 * j)) \<or>
           left (?ovs ! (2 * j)) + WIDTH \<le> left (?ovs ! (2 * i)) \<or>
           top_px (?ovs ! (2 * i)) + (HEIGHT + LABEL_H) \<le> top_px (?ovs ! (2 * j)) \<or>
           top_px (?ovs ! (2 * j)) + (HEIGHT + LABEL_H) \<le> top_px (?ovs ! (2 * i))"
    proof (intro allI impI)
      fix i j
      assume "i < length images" "j < length images" "i \<noteq> j"
      with pos [of i] pos [of j] cells_disjoint [of i j]
      show "left (?ovs ! (2 * i)) + WIDTH \<le> left (?ovs ! (2 * j)) \<or>
           left (?ovs ! (2 * j)) + WIDTH \<le> left (?ovs ! (2 * i)) \<or>
           top_px (?ovs ! (2 * i)) + (HEIGHT + LABEL_H) \<le> top_px (?ovs ! (2 * j)) \<or>
           top_px (?ovs ! (2 * j)) + (HEIGHT + LABEL_H) \<le> top_px (?ovs ! (2 * i))"
        by simp
    qed
    moreover have "\<forall>i<length images.
           0 \<le> left (?ovs ! (2 * i)) - GAP \<and>
           left (?ovs ! (2 * i)) + WIDTH + GAP \<le> width ?cv \<and>
           0 \<le> top_px (?ovs ! (2 * i)) - GAP \<and>
           top_px (?ovs ! (2 * i)) + (HEIGHT + LABEL_H) + GAP \<le> height ?cv"
    proof (intro allI impI)
      fix i
      assume i: "i < length images"
      with pos [of i] cell_inside [OF i] cv
      show "0 \<le> left (?ovs ! (2 * i)) - GAP \<and>
           left (?ovs ! (2 * i)) + WIDTH + GAP \<le> width ?cv \<and>
           0 \<le> top_px (?ovs ! (2 * i)) - GAP \<and>
           top_px (?ovs ! (2 * i)) + (HEIGHT + LABEL_H) + GAP \<le> height ?cv"
        by simp
    qed
    moreover have "width ?cv = GAP + COLS * (WIDTH + GAP)"
      by (simp add: cv gridW_def COLS_def WIDTH_def GAP_def)
    moreover have "images \<noteq> [] \<longrightarrow>
           top_px (?ovs ! (2 * (length images - 1))) + (HEIGHT + LABEL_H) + GAP = height ?cv"
    proof
      assume "images \<noteq> []"
      then have n: "0 < length images" by simp
      then have "length images - 1 < length images" by simp
      from pos [OF this] last_cell_bottom [OF n] cv show
        "top_px (?ovs ! (2 * (length images - 1))) + (HEIGHT + LABEL_H) + GAP = height ?cv"
        by simp
    qed
    ultimately show "\<exists>cv ovs.
        tr' = tr @ map SharpToBuffer images
                @ [SharpToFile (outGrid dir) cv ovs, ConsoleLog (outGrid dir)] \<and>
        (\<forall>i<length images. \<forall>j<length images. i \<noteq> j \<longrightarrow>
           left (ovs ! (2 * i)) + WIDTH \<le> left (ovs ! (2 * j)) \<or>
           left (ovs ! (2 * j)) + WIDTH \<le> left (ovs ! (2 * i)) \<or>
           top_px (ovs ! (2 * i)) + (HEIGHT + LABEL_H) \<le> top_px (ovs ! (2 * j)) \<or>
           top_px (ovs ! (2 * j)) + (HEIGHT + LABEL_H) \<le> top_px (ovs ! (2 * i))) \<and>
        (\<forall>i<length images.
           0 \<le> left (ovs ! (2 * i)) - GAP \<and>
           left (ovs ! (2 * i)) + WIDTH + GAP \<le> width cv \<and>
           0 \<le> top_px (ovs ! (2 * i)) - GAP \<and>
           top_px (ovs ! (2 * i)) + (HEIGHT + LABEL_H) + GAP \<le> height cv) \<and>
        width cv = GAP + COLS * (WIDTH + GAP) \<and>
        (images \<noteq> [] \<longrightarrow>
           top_px (ovs ! (2 * (length images - 1))) + (HEIGHT + LABEL_H) + GAP = height cv)"
      by blast
  qed
qed

theorem makeGrid_cells_disjoint_witness:
  "makeGrid quietEnv ''/deck'' [''a.png'', ''b.png'', ''c.png'', ''d.png'', ''e.png''] []
   = (Inr (),
      [SharpToBuffer ''a.png'', SharpToBuffer ''b.png'', SharpToBuffer ''c.png'',
       SharpToBuffer ''d.png'', SharpToBuffer ''e.png'',
       SharpToFile ''/deck/preview-grid.png''
         \<lparr>width = 3930, height = 1194, channels = 4, background = (20, 23, 32, 1)\<rparr>
         [\<lparr>input = ''PNG:a.png'', left = 18, top_px = 18\<rparr>,
          \<lparr>input = labelSvg 0, left = 18, top_px = 558\<rparr>,
          \<lparr>input = ''PNG:b.png'', left = 996, top_px = 18\<rparr>,
          \<lparr>input = labelSvg 1, left = 996, top_px = 558\<rparr>,
          \<lparr>input = ''PNG:c.png'', left = 1974, top_px = 18\<rparr>,
          \<lparr>input = labelSvg 2, left = 1974, top_px = 558\<rparr>,
          \<lparr>input = ''PNG:d.png'', left = 2952, top_px = 18\<rparr>,
          \<lparr>input = labelSvg 3, left = 2952, top_px = 558\<rparr>,
          \<lparr>input = ''PNG:e.png'', left = 18, top_px = 606\<rparr>,
          \<lparr>input = labelSvg 4, left = 18, top_px = 1146\<rparr>],
       ConsoleLog ''/deck/preview-grid.png'']) \<and>
   (18 + WIDTH \<le> (18::int) \<or> 18 + WIDTH \<le> (18::int) \<or>
    18 + (HEIGHT + LABEL_H) \<le> (606::int) \<or> 606 + (HEIGHT + LABEL_H) \<le> (18::int)) \<and>
   606 + (HEIGHT + LABEL_H) + GAP = (1194::int)"
  (is "?run \<and> ?apart \<and> ?bottom")
proof -
  let ?IMGS = "[''a.png'', ''b.png'', ''c.png'', ''d.png'', ''e.png'']"
  let ?OVS = "[\<lparr>input = ''PNG:a.png'', left = 18, top_px = 18\<rparr>,
          \<lparr>input = labelSvg 0, left = 18, top_px = 558\<rparr>,
          \<lparr>input = ''PNG:b.png'', left = 996, top_px = 18\<rparr>,
          \<lparr>input = labelSvg 1, left = 996, top_px = 558\<rparr>,
          \<lparr>input = ''PNG:c.png'', left = 1974, top_px = 18\<rparr>,
          \<lparr>input = labelSvg 2, left = 1974, top_px = 558\<rparr>,
          \<lparr>input = ''PNG:d.png'', left = 2952, top_px = 18\<rparr>,
          \<lparr>input = labelSvg 3, left = 2952, top_px = 558\<rparr>,
          \<lparr>input = ''PNG:e.png'', left = 18, top_px = 606\<rparr>,
          \<lparr>input = labelSvg 4, left = 18, top_px = 1146\<rparr>]"
  let ?CV = "\<lparr>width = 3930, height = 1194, channels = 4, background = (20, 23, 32, 1)\<rparr>"
  have run: ?run
    by code_simp
  note inst = makeGrid_cells_disjoint [of ?IMGS quietEnv "[]" "''/deck''"]
  have "\<exists>tr'. makeGrid quietEnv ''/deck'' ?IMGS [] = (Inr (), tr')"
    by (rule inst [THEN conjunct1, THEN mp]) (simp add: quietEnv_def)
  from inst [THEN conjunct2, rule_format, OF run] obtain cv ovs where
    tr: "[SharpToBuffer ''a.png'', SharpToBuffer ''b.png'', SharpToBuffer ''c.png'',
          SharpToBuffer ''d.png'', SharpToBuffer ''e.png'',
          SharpToFile ''/deck/preview-grid.png'' ?CV ?OVS,
          ConsoleLog ''/deck/preview-grid.png'']
         = [] @ map SharpToBuffer ?IMGS
             @ [SharpToFile (outGrid ''/deck'') cv ovs, ConsoleLog (outGrid ''/deck'')]"
    and apart: "\<forall>i<length ?IMGS. \<forall>j<length ?IMGS. i \<noteq> j \<longrightarrow>
         left (ovs ! (2 * i)) + WIDTH \<le> left (ovs ! (2 * j)) \<or>
         left (ovs ! (2 * j)) + WIDTH \<le> left (ovs ! (2 * i)) \<or>
         top_px (ovs ! (2 * i)) + (HEIGHT + LABEL_H) \<le> top_px (ovs ! (2 * j)) \<or>
         top_px (ovs ! (2 * j)) + (HEIGHT + LABEL_H) \<le> top_px (ovs ! (2 * i))"
    and bottom: "?IMGS \<noteq> [] \<longrightarrow>
         top_px (ovs ! (2 * (length ?IMGS - 1))) + (HEIGHT + LABEL_H) + GAP = height cv"
    by blast
  from tr have eq: "ovs = ?OVS" "cv = ?CV"
    by simp_all
  have "left (ovs ! (2 * 0)) + WIDTH \<le> left (ovs ! (2 * 4)) \<or>
         left (ovs ! (2 * 4)) + WIDTH \<le> left (ovs ! (2 * 0)) \<or>
         top_px (ovs ! (2 * 0)) + (HEIGHT + LABEL_H) \<le> top_px (ovs ! (2 * 4)) \<or>
         top_px (ovs ! (2 * 4)) + (HEIGHT + LABEL_H) \<le> top_px (ovs ! (2 * 0))"
    by (rule apart [rule_format, of 0 4]) simp_all
  then have a: ?apart
    by (simp add: eq)
  from bottom have b: ?bottom
    by (simp add: eq)
  from run a b show ?thesis
    by blast
qed

text \<open>
  Claim C5. When the decode of image \<open>k\<close> is the first one that throws, \<^verbatim>\<open>makeGrid\<close>
  fails with exactly that error, having made only the decode calls up to and including
  that one: the composite is never written, since the one write comes after the whole
  list of overlays is assembled.
\<close>

theorem makeGrid_decode_failure:
  assumes "k < length images"
      and "\<forall>j<k. throws e (tr @ map SharpToBuffer (take j images))
                    (SharpToBuffer (images ! j)) = None"
      and "throws e (tr @ map SharpToBuffer (take k images))
             (SharpToBuffer (images ! k)) = Some err"
  shows "makeGrid e dir images tr = (Inl err, tr @ map SharpToBuffer (take (Suc k) images)) \<and>
         (\<forall>p cv ovs. SharpToFile p cv ovs
                        \<notin> set (drop (length tr) (snd (makeGrid e dir images tr))))"
proof -
  have "compositeLoop e images 0 [] tr = (Inl err, decodeTrace tr images (Suc k))"
    using assms by (intro compositeLoop_Inl) (simp_all add: decodeTrace_def)
  then have run: "makeGrid e dir images tr
                    = (Inl err, tr @ map SharpToBuffer (take (Suc k) images))"
    by (simp add: makeGrid_def decodeTrace_def)
  then have "drop (length tr) (snd (makeGrid e dir images tr))
               = map SharpToBuffer (take (Suc k) images)"
    by simp
  then have "\<forall>p cv ovs. SharpToFile p cv ovs
                        \<notin> set (drop (length tr) (snd (makeGrid e dir images tr)))"
    by auto
  with run show ?thesis
    by blast
qed

theorem makeGrid_decode_failure_witness:
  "makeGrid (failingAt (SharpToBuffer ''c.png'') (Error ''Input file is missing''))
     ''/deck'' [''a.png'', ''b.png'', ''c.png'', ''d.png''] []
   = (Inl (Error ''Input file is missing''),
      [SharpToBuffer ''a.png'', SharpToBuffer ''b.png'', SharpToBuffer ''c.png''])"
proof -
  let ?e = "failingAt (SharpToBuffer ''c.png'') (Error ''Input file is missing'')"
  let ?IMGS = "[''a.png'', ''b.png'', ''c.png'', ''d.png'']"
  have k: "(2::nat) < length ?IMGS"
    by simp
  have before: "\<forall>j<2. throws ?e ([] @ map SharpToBuffer (take j ?IMGS))
                         (SharpToBuffer (?IMGS ! j)) = None"
    by (simp add: failingAt_def less_Suc_eq numeral_2_eq_2)
  have at: "throws ?e ([] @ map SharpToBuffer (take 2 ?IMGS)) (SharpToBuffer (?IMGS ! 2))
              = Some (Error ''Input file is missing'')"
    by (simp add: failingAt_def)
  from makeGrid_decode_failure [OF k before at, of "''/deck''"] show ?thesis
    by (simp add: numeral_3_eq_3 numeral_2_eq_2)
qed

text \<open>
  Claim C8. Two returning runs of \<^verbatim>\<open>makeGrid\<close> over the same list of images, in any
  two environments, after any two histories and for any two script directories, write
  the same canvas and the same overlay positions; the decodes are made in the order of
  the list, and the overlay at slot \<open>2 * i\<close> holds what the decode of the \<open>i\<close>-th entry of
  the list returned. Nothing but the list itself decides the tiling.
\<close>

theorem makeGrid_placement_deterministic:
  assumes "makeGrid e1 dir1 images tr1 = (Inr u1, tr1')"
      and "makeGrid e2 dir2 images tr2 = (Inr u2, tr2')"
  shows "\<exists>cv ovs1 ovs2.
      drop (length tr1) tr1' = map SharpToBuffer images
          @ [SharpToFile (outGrid dir1) cv ovs1, ConsoleLog (outGrid dir1)] \<and>
      drop (length tr2) tr2' = map SharpToBuffer images
          @ [SharpToFile (outGrid dir2) cv ovs2, ConsoleLog (outGrid dir2)] \<and>
      map (\<lambda>ov. (left ov, top_px ov)) ovs1 = map (\<lambda>ov. (left ov, top_px ov)) ovs2 \<and>
      (\<forall>i<length images.
         input (ovs1 ! (2 * i)) = pngData e1 (tr1 @ map SharpToBuffer (take i images)) (images ! i) \<and>
         input (ovs2 ! (2 * i)) = pngData e2 (tr2 @ map SharpToBuffer (take i images)) (images ! i))"
proof -
  let ?o1 = "gridOverlays e1 images tr1"
  let ?o2 = "gridOverlays e2 images tr2"
  have t1: "drop (length tr1) tr1' = map SharpToBuffer images
          @ [SharpToFile (outGrid dir1) (base (length images)) ?o1, ConsoleLog (outGrid dir1)]"
    using makeGrid_Inr [OF assms(1)] by simp
  have t2: "drop (length tr2) tr2' = map SharpToBuffer images
          @ [SharpToFile (outGrid dir2) (base (length images)) ?o2, ConsoleLog (outGrid dir2)]"
    using makeGrid_Inr [OF assms(2)] by simp
  have same: "map (\<lambda>ov. (left ov, top_px ov)) ?o1 = map (\<lambda>ov. (left ov, top_px ov)) ?o2"
    by (simp add: gridOverlays_def cellOverlays_def map_concat comp_def)
  have inp: "\<forall>i<length images.
         input (?o1 ! (2 * i)) = pngData e1 (tr1 @ map SharpToBuffer (take i images)) (images ! i) \<and>
         input (?o2 ! (2 * i)) = pngData e2 (tr2 @ map SharpToBuffer (take i images)) (images ! i)"
    using gridOverlays_nth [of _ images e1 tr1] gridOverlays_nth [of _ images e2 tr2]
    by (simp add: decodeTrace_def)
  from t1 t2 same inp show ?thesis
    by blast
qed

theorem makeGrid_placement_deterministic_witness:
  "makeGrid quietEnv ''/deck'' [''a.png'', ''b.png''] []
   = (Inr (),
      [SharpToBuffer ''a.png'', SharpToBuffer ''b.png'',
       SharpToFile ''/deck/preview-grid.png''
         \<lparr>width = 3930, height = 606, channels = 4, background = (20, 23, 32, 1)\<rparr>
         [\<lparr>input = ''PNG:a.png'', left = 18, top_px = 18\<rparr>,
          \<lparr>input = labelSvg 0, left = 18, top_px = 558\<rparr>,
          \<lparr>input = ''PNG:b.png'', left = 996, top_px = 18\<rparr>,
          \<lparr>input = labelSvg 1, left = 996, top_px = 558\<rparr>],
       ConsoleLog ''/deck/preview-grid.png'']) \<and>
   makeGrid (failingAt ChromiumLaunch (Error ''no browser'')) ''/tmp'' [''a.png'', ''b.png'']
     [ConsoleLog ''earlier run'']
   = (Inr (),
      [ConsoleLog ''earlier run'', SharpToBuffer ''a.png'', SharpToBuffer ''b.png'',
       SharpToFile ''/tmp/preview-grid.png''
         \<lparr>width = 3930, height = 606, channels = 4, background = (20, 23, 32, 1)\<rparr>
         [\<lparr>input = ''PNG:a.png'', left = 18, top_px = 18\<rparr>,
          \<lparr>input = labelSvg 0, left = 18, top_px = 558\<rparr>,
          \<lparr>input = ''PNG:b.png'', left = 996, top_px = 18\<rparr>,
          \<lparr>input = labelSvg 1, left = 996, top_px = 558\<rparr>],
       ConsoleLog ''/tmp/preview-grid.png''])"
  (is "?run1 \<and> ?run2")
proof -
  have run1: ?run1
    by code_simp
  have run2: ?run2
    by code_simp
  from makeGrid_placement_deterministic [OF run1 run2] run1 run2 show ?thesis
    by blast
qed

section \<open>The pipeline driver\<close>

text \<open>
  Claim C7. The driver runs the capturer first and, when it returned, the compositor
  over the paths it returned; the compositor's last act is to print the composite's
  path. When both stages return the exit status is 0. When either stage throws, the
  error is printed with \<^verbatim>\<open>console.error\<close> as the last event and the exit status is 1;
  after a failed capture no compositor call is made.
\<close>

theorem run_exit_status:
  "(\<forall>images tr1 u tr2.
      screenshotSlides e dir files [] = (Inr images, tr1) \<and>
      makeGrid e dir images tr1 = (Inr u, tr2) \<longrightarrow>
        last tr1 = BrowserClose \<and>
        (\<exists>ovs. trace (run e dir files)
                 = tr1 @ map SharpToBuffer images
                     @ [SharpToFile (outGrid dir) (base (length images)) ovs,
                        ConsoleLog (outGrid dir)]) \<and>
        exitStatus (run e dir files) = 0) \<and>
   (\<forall>err tr1.
      screenshotSlides e dir files [] = (Inl err, tr1) \<longrightarrow>
        trace (run e dir files) = tr1 @ [ConsoleError err] \<and>
        exitStatus (run e dir files) = 1) \<and>
   (\<forall>images tr1 err tr2.
      screenshotSlides e dir files [] = (Inr images, tr1) \<and>
      makeGrid e dir images tr1 = (Inl err, tr2) \<longrightarrow>
        trace (run e dir files) = tr2 @ [ConsoleError err] \<and>
        exitStatus (run e dir files) = 1)"
proof (intro conjI allI impI)
  fix images tr1 u tr2
  assume a: "screenshotSlides e dir files [] = (Inr images, tr1) \<and>
      makeGrid e dir images tr1 = (Inr u, tr2)"
  then have cap: "screenshotSlides e dir files [] = (Inr images, tr1)"
    and grid: "makeGrid e dir images tr1 = (Inr u, tr2)"
    by simp_all
  from screenshotSlides_Inr [OF cap] show "last tr1 = BrowserClose"
    by simp
  from cap grid have tr: "trace (run e dir files) = tr2"
    by (simp add: run_def main_def)
  with makeGrid_Inr [OF grid]
  show "\<exists>ovs. trace (run e dir files)
                 = tr1 @ map SharpToBuffer images
                     @ [SharpToFile (outGrid dir) (base (length images)) ovs,
                        ConsoleLog (outGrid dir)]"
    by blast
  from cap grid show "exitStatus (run e dir files) = 0"
    by (simp add: run_def main_def exitStatus_def)
next
  fix err tr1
  assume cap: "screenshotSlides e dir files [] = (Inl err, tr1)"
  then show "trace (run e dir files) = tr1 @ [ConsoleError err]"
    by (simp add: run_def main_def)
  from cap show "exitStatus (run e dir files) = 1"
    by (simp add: run_def main_def exitStatus_def)
next
  fix images tr1 err tr2
  assume a: "screenshotSlides e dir files [] = (Inr images, tr1) \<and>
      makeGrid e dir images tr1 = (Inl err, tr2)"
  then show "trace (run e dir files) = tr2 @ [ConsoleError err]"
    by (simp add: run_def main_def)
  from a show "exitStatus (run e dir files) = 1"
    by (simp add: run_def main_def exitStatus_def)
qed

theorem run_exit_status_witness:
  "exitStatus (run quietEnv ''/deck'' [''/s/a.html'']) = 0 \<and>
   trace (run (failingAt (PageScreenshot ''/deck/preview/slide-01.png'') (Error ''disk full''))
            ''/deck'' [''/s/a.html''])
     = [FsMkdir ''/deck/preview'' True, ChromiumLaunch, BrowserNewPage 960 540,
        PageGoto ''file:///s/a.html'', PageWaitForTimeout 50,
        PageScreenshot ''/deck/preview/slide-01.png'', BrowserClose]
       @ [ConsoleError (Error ''disk full'')] \<and>
   exitStatus (run (failingAt (PageScreenshot ''/deck/preview/slide-01.png'') (Error ''disk full''))
                 ''/deck'' [''/s/a.html'']) = 1 \<and>
   trace (run (failingAt (SharpToBuffer ''/deck/preview/slide-01.png'') (Error ''bad png''))
            ''/deck'' [''/s/a.html''])
     = [FsMkdir ''/deck/preview'' True, ChromiumLaunch, BrowserNewPage 960 540,
        PageGoto ''file:///s/a.html'', PageWaitForTimeout 50,
        PageScreenshot ''/deck/preview/slide-01.png'', BrowserClose,
        SharpToBuffer ''/deck/preview/slide-01.png'']
       @ [ConsoleError (Error ''bad png'')] \<and>
   exitStatus (run (failingAt (SharpToBuffer ''/deck/preview/slide-01.png'') (Error ''bad png''))
                 ''/deck'' [''/s/a.html'']) = 1"
proof -
  let ?files = "[''/s/a.html'']"
  let ?cap = "[FsMkdir ''/deck/preview'' True, ChromiumLaunch, BrowserNewPage 960 540,
        PageGoto ''file:///s/a.html'', PageWaitForTimeout 50,
        PageScreenshot ''/deck/preview/slide-01.png'', BrowserClose]"
  let ?e1 = "failingAt (PageScreenshot ''/deck/preview/slide-01.png'') (Error ''disk full'')"
  let ?e2 = "failingAt (SharpToBuffer ''/deck/preview/slide-01.png'') (Error ''bad png'')"
  have cap0: "screenshotSlides quietEnv ''/deck'' ?files []
                = (Inr [''/deck/preview/slide-01.png''], ?cap)"
    by code_simp
  have grid0: "makeGrid quietEnv ''/deck'' [''/deck/preview/slide-01.png''] ?cap
                = (Inr (),
                   ?cap @ [SharpToBuffer ''/deck/preview/slide-01.png'',
                     SharpToFile ''/deck/preview-grid.png''
                       \<lparr>width = 3930, height = 606, channels = 4, background = (20, 23, 32, 1)\<rparr>
                       [\<lparr>input = ''PNG:/deck/preview/slide-01.png'', left = 18, top_px = 18\<rparr>,
                        \<lparr>input = labelSvg 0, left = 18, top_px = 558\<rparr>],
                     ConsoleLog ''/deck/preview-grid.png''])"
    by code_simp
  have cap1: "screenshotSlides ?e1 ''/deck'' ?files [] = (Inl (Error ''disk full''), ?cap)"
    by code_simp
  have cap2: "screenshotSlides ?e2 ''/deck'' ?files []
                = (Inr [''/deck/preview/slide-01.png''], ?cap)"
    by code_simp
  have grid2: "makeGrid ?e2 ''/deck'' [''/deck/preview/slide-01.png''] ?cap
                = (Inl (Error ''bad png''), ?cap @ [SharpToBuffer ''/deck/preview/slide-01.png''])"
    by code_simp
  from run_exit_status [of quietEnv "''/deck''" ?files] cap0 grid0
  have ok: "exitStatus (run quietEnv ''/deck'' ?files) = 0"
    by blast
  from run_exit_status [of ?e1 "''/deck''" ?files] cap1
  have f1: "trace (run ?e1 ''/deck'' ?files) = ?cap @ [ConsoleError (Error ''disk full'')]"
    "exitStatus (run ?e1 ''/deck'' ?files) = 1"
    by blast+
  from run_exit_status [of ?e2 "''/deck''" ?files] cap2 grid2
  have f2: "trace (run ?e2 ''/deck'' ?files)
              = (?cap @ [SharpToBuffer ''/deck/preview/slide-01.png''])
                  @ [ConsoleError (Error ''bad png'')]"
    "exitStatus (run ?e2 ''/deck'' ?files) = 1"
    by blast+
  from ok f1 f2 show ?thesis
    by simp
qed

text \<open>
  Claim C6, as the spec states it, fails on the code: with an empty slide list, in an
  environment where no call throws, the run does not reject anything. It launches the
  browser, opens a page, closes the browser, writes a composite of 3930 by 18 pixels
  with no overlay, prints its path and ends with exit status 0.
\<close>

theorem zero_slides_counterexample:
  "run quietEnv ''/deck'' [] =
     \<lparr>trace = [FsMkdir ''/deck/preview'' True, ChromiumLaunch, BrowserNewPage 960 540,
               BrowserClose,
               SharpToFile ''/deck/preview-grid.png''
                 \<lparr>width = 3930, height = 18, channels = 4, background = (20, 23, 32, 1)\<rparr> [],
               ConsoleLog ''/deck/preview-grid.png''],
      exitCode = None\<rparr> \<and>
   exitStatus (run quietEnv ''/deck'' []) = 0"
  by code_simp

text \<open>
  Claim C6, amended. Given 0 slide files, the pipeline does not reject the empty list:
  unless one of its five external calls throws, it creates the directory, launches the
  browser, opens a page, makes no navigation and no capture, closes the browser, writes
  a composite of 3930 by 18 pixels with no overlay, prints its path and leaves the exit
  code unset. The layout of a zero count is \<open>rows = 0\<close>, width 3930 and height 18, and
  for every count the row count is non-negative and the height positive.
\<close>

theorem zero_slides_run:
  "(throws e [] (FsMkdir (outDir dir) True) = None \<and>
    throws e [FsMkdir (outDir dir) True] ChromiumLaunch = None \<and>
    throws e [FsMkdir (outDir dir) True, ChromiumLaunch] (BrowserNewPage 960 540) = None \<and>
    throws e [FsMkdir (outDir dir) True, ChromiumLaunch, BrowserNewPage 960 540]
      BrowserClose = None \<and>
    throws e [FsMkdir (outDir dir) True, ChromiumLaunch, BrowserNewPage 960 540, BrowserClose]
      (SharpToFile (outGrid dir)
         \<lparr>width = 3930, height = 18, channels = 4, background = (20, 23, 32, 1)\<rparr> []) = None
    \<longrightarrow>
    run e dir [] =
      \<lparr>trace = [FsMkdir (outDir dir) True, ChromiumLaunch, BrowserNewPage 960 540, BrowserClose,
                SharpToFile (outGrid dir)
                  \<lparr>width = 3930, height = 18, channels = 4, background = (20, 23, 32, 1)\<rparr> [],
                ConsoleLog (outGrid dir)],
       exitCode = None\<rparr>) \<and>
   gridRows 0 = 0 \<and> gridW = 3930 \<and> gridH 0 = 18 \<and>
   (\<forall>n. 0 \<le> gridRows n \<and> 0 < gridH n)"
proof -
  have rows0: "gridRows 0 = 0"
    by (simp add: gridRows_div)
  have w: "gridW = 3930"
    by (simp add: gridW_def COLS_def WIDTH_def GAP_def)
  have h0: "gridH 0 = 18"
    by (simp add: gridH_def rows0 GAP_def)
  have "throws e [] (FsMkdir (outDir dir) True) = None \<and>
    throws e [FsMkdir (outDir dir) True] ChromiumLaunch = None \<and>
    throws e [FsMkdir (outDir dir) True, ChromiumLaunch] (BrowserNewPage 960 540) = None \<and>
    throws e [FsMkdir (outDir dir) True, ChromiumLaunch, BrowserNewPage 960 540]
      BrowserClose = None \<and>
    throws e [FsMkdir (outDir dir) True, ChromiumLaunch, BrowserNewPage 960 540, BrowserClose]
      (SharpToFile (outGrid dir)
         \<lparr>width = 3930, height = 18, channels = 4, background = (20, 23, 32, 1)\<rparr> []) = None
    \<longrightarrow>
    run e dir [] =
      \<lparr>trace = [FsMkdir (outDir dir) True, ChromiumLaunch, BrowserNewPage 960 540, BrowserClose,
                SharpToFile (outGrid dir)
                  \<lparr>width = 3930, height = 18, channels = 4, background = (20, 23, 32, 1)\<rparr> [],
                ConsoleLog (outGrid dir)],
       exitCode = None\<rparr>"
    by (simp add: run_def main_def screenshotSlides_def ensureDir_def call_def
        captureLoop.simps makeGrid_def compositeLoop.simps base_def w h0 WIDTH_def HEIGHT_def)
  with rows0 w h0 gridRows_nonneg gridH_pos show ?thesis
    by blast
qed

theorem zero_slides_run_witness:
  "run quietEnv ''/'' [] =
     \<lparr>trace = [FsMkdir (outDir ''/'') True, ChromiumLaunch, BrowserNewPage 960 540, BrowserClose,
               SharpToFile (outGrid ''/'')
                 \<lparr>width = 3930, height = 18, channels = 4, background = (20, 23, 32, 1)\<rparr> [],
               ConsoleLog (outGrid ''/'')],
      exitCode = None\<rparr>"
  using zero_slides_run [of quietEnv "''/''"] by (simp add: quietEnv_def)

end
